theory Spec2Isabelle
  imports Main "HOL-Library.AList"
begin

section \<open>Values, exceptions and the outside world\<close>

text \<open>
  The controller talks to a camera through the client object of the external library
  (\<^verbatim>\<open>pytapo.Tapo\<close>) and paces itself with \<^verbatim>\<open>time.sleep\<close>. Neither is part of the
  repository, so both are a parameter of the model: a \<open>world\<close> tells, from everything
  that has happened so far, how the next blocking action ends, by returning a Python
  value or by raising. The \<open>trace\<close> is the list of actions performed, oldest first; an
  action that raises is still recorded, since the device was contacted.
\<close>

datatype pyval =
    PNone
  | PBool bool
  | PInt int
  | PStr string
  | PList "pyval list"
  | PDict "(string \<times> pyval) list"

text \<open>
  \<open>KeyboardInterrupt\<close> is the only exception of the model that is not a subclass of
  Python's \<^verbatim>\<open>Exception\<close>: an \<^verbatim>\<open>except Exception\<close> handler lets it through.
  \<open>ClientError\<close> stands for any other exception the client library raises.
\<close>

datatype exn =
    ValueError
  | AttributeError
  | TypeError
  | JSONDecodeError
  | FileNotFoundError
  | UnicodeEncodeError
  | ClientError string
  | KeyboardInterrupt

definition is_Exception :: "exn \<Rightarrow> bool" where
  "is_Exception e = (e \<noteq> KeyboardInterrupt)"

datatype call =
    GetBasicInfo
  | GetMotorCapability
  | GetPrivacyMode
  | SetPrivacyMode bool
  | MoveMotor int int
  | MoveMotorStep int
  | GetPresets
  | SavePreset string
  | SetPreset string
  | DeletePreset string
  | CalibrateMotor

datatype event =
    Connect string string string
  | Call string call
  | Sleep int

datatype reply = Returns pyval | Raises exn

type_synonym trace = "event list"
type_synonym world = "trace \<Rightarrow> event \<Rightarrow> reply"

definition perform :: "world \<Rightarrow> event \<Rightarrow> trace \<Rightarrow> (exn + pyval) \<times> trace" where
  "perform w ev tr =
     (case w tr ev of
        Returns v \<Rightarrow> (Inr v, tr @ [ev])
      | Raises e \<Rightarrow> (Inl e, tr @ [ev]))"

text \<open>\<^verbatim>\<open>time.sleep(n)\<close> rejects a negative length before it waits.\<close>

definition sleep :: "world \<Rightarrow> int \<Rightarrow> trace \<Rightarrow> (exn + pyval) \<times> trace" where
  "sleep w n tr = (if n < 0 then (Inl ValueError, tr) else perform w (Sleep n) tr)"

text \<open>\<^verbatim>\<open>v.get(k, dflt)\<close>: only a dict has the method.\<close>

definition py_get :: "pyval \<Rightarrow> string \<Rightarrow> pyval \<Rightarrow> exn + pyval" where
  "py_get v k dflt =
     (case v of
        PDict d \<Rightarrow> Inr (case map_of d k of Some x \<Rightarrow> x | None \<Rightarrow> dflt)
      | _ \<Rightarrow> Inl AttributeError)"

text \<open>\<^verbatim>\<open>except Exception: return dflt\<close>\<close>

definition swallow :: "exn \<Rightarrow> 'a \<Rightarrow> exn + 'a" where
  "swallow e dflt = (if is_Exception e then Inr dflt else Inl e)"

section \<open>\<^verbatim>\<open>tapo_c225_controller.py\<close>: one camera\<close>

text \<open>The client object built by \<^verbatim>\<open>Tapo(host, user, password)\<close>.\<close>

datatype tapo = Tapo string string string

fun tapo_host :: "tapo \<Rightarrow> string" where
  "tapo_host (Tapo h u p) = h"

record controller =
  host :: string
  user :: string
  password :: string
  tapo :: "tapo option"
  motor_capability :: "pyval option"

definition init_controller :: "string \<Rightarrow> string \<Rightarrow> string \<Rightarrow> controller" where
  "init_controller h u p =
     \<lparr>host = h, user = u, password = p, tapo = None, motor_capability = None\<rparr>"

text \<open>
  \<^verbatim>\<open>self.tapo.<method>(...)\<close>: an \<open>AttributeError\<close> without any device contact while
  \<^verbatim>\<open>self.tapo\<close> is \<^verbatim>\<open>None\<close>.
\<close>

definition invoke :: "world \<Rightarrow> controller \<Rightarrow> call \<Rightarrow> trace \<Rightarrow> (exn + pyval) \<times> trace" where
  "invoke w c cl tr =
     (case tapo c of
        None \<Rightarrow> (Inl AttributeError, tr)
      | Some t \<Rightarrow> perform w (Call (tapo_host t) cl) tr)"

text \<open>
  \<^verbatim>\<open>_get_motor_capability\<close>: the capability is stored before the lines that print
  its fields, so an exception raised while printing changes nothing more.
\<close>

definition get_motor_capability ::
  "world \<Rightarrow> controller \<Rightarrow> trace \<Rightarrow> (exn + unit) \<times> controller \<times> trace" where
  "get_motor_capability w c tr =
     (case invoke w c GetMotorCapability tr of
        (Inl e, tr1) \<Rightarrow> (swallow e (), c, tr1)
      | (Inr result, tr1) \<Rightarrow>
          (case py_get result ''motor'' (PDict []) of
             Inl e \<Rightarrow> (swallow e (), c, tr1)
           | Inr m \<Rightarrow>
               (case py_get m ''capability'' (PDict []) of
                  Inl e \<Rightarrow> (swallow e (), c, tr1)
                | Inr cap \<Rightarrow> (Inr (), c\<lparr>motor_capability := Some cap\<rparr>, tr1))))"

text \<open>
  \<^verbatim>\<open>connect\<close>: the client is stored as soon as it is built, so it stays stored when a
  later step fails. The two lines that print fields of \<^verbatim>\<open>device_info\<close> raise on the
  same condition, that it is not a dict; one lookup stands for both.
\<close>

definition connect ::
  "world \<Rightarrow> controller \<Rightarrow> trace \<Rightarrow> (exn + bool) \<times> controller \<times> trace" where
  "connect w c tr =
     (case perform w (Connect (host c) (user c) (password c)) tr of
        (Inl e, tr1) \<Rightarrow> (swallow e False, c, tr1)
      | (Inr _, tr1) \<Rightarrow>
          (let c1 = c\<lparr>tapo := Some (Tapo (host c) (user c) (password c))\<rparr> in
           case invoke w c1 GetBasicInfo tr1 of
             (Inl e, tr2) \<Rightarrow> (swallow e False, c1, tr2)
           | (Inr basic_info, tr2) \<Rightarrow>
               (case py_get basic_info ''device_info'' (PDict []) of
                  Inl e \<Rightarrow> (swallow e False, c1, tr2)
                | Inr di \<Rightarrow>
                    (case py_get di ''basic_info'' (PDict []) of
                       Inl e \<Rightarrow> (swallow e False, c1, tr2)
                     | Inr device_info \<Rightarrow>
                         (case py_get device_info ''device_model'' (PStr ''Unknown'') of
                            Inl e \<Rightarrow> (swallow e False, c1, tr2)
                          | Inr _ \<Rightarrow>
                              (case get_motor_capability w c1 tr2 of
                                 (Inl e, c2, tr3) \<Rightarrow> (swallow e False, c2, tr3)
                               | (Inr _, c2, tr3) \<Rightarrow> (Inr True, c2, tr3)))))))"

definition ensure_privacy_mode_off ::
  "world \<Rightarrow> controller \<Rightarrow> trace \<Rightarrow> (exn + bool) \<times> trace" where
  "ensure_privacy_mode_off w c tr =
     (case invoke w c GetPrivacyMode tr of
        (Inl e, tr1) \<Rightarrow> (swallow e False, tr1)
      | (Inr privacy, tr1) \<Rightarrow>
          (case py_get privacy ''enabled'' PNone of
             Inl e \<Rightarrow> (swallow e False, tr1)
           | Inr enabled \<Rightarrow>
               if enabled = PStr ''on'' then
                 (case invoke w c (SetPrivacyMode False) tr1 of
                    (Inl e, tr2) \<Rightarrow> (swallow e False, tr2)
                  | (Inr _, tr2) \<Rightarrow>
                      (case sleep w 1 tr2 of
                         (Inl e, tr3) \<Rightarrow> (swallow e False, tr3)
                       | (Inr _, tr3) \<Rightarrow> (Inr True, tr3)))
               else (Inr True, tr1)))"

text \<open>
  A guarded command: the return value of the guard is dropped, and only an exception
  that gets out of it stops the command.
\<close>

definition move :: "world \<Rightarrow> controller \<Rightarrow> int \<Rightarrow> int \<Rightarrow> trace \<Rightarrow> (exn + pyval) \<times> trace" where
  "move w c x y tr =
     (case ensure_privacy_mode_off w c tr of
        (Inl e, tr1) \<Rightarrow> (Inl e, tr1)
      | (Inr _, tr1) \<Rightarrow> invoke w c (MoveMotor x y) tr1)"

definition move_step :: "world \<Rightarrow> controller \<Rightarrow> int \<Rightarrow> trace \<Rightarrow> (exn + pyval) \<times> trace" where
  "move_step w c angle tr =
     (if \<not> (0 \<le> angle \<and> angle < 360) then (Inl ValueError, tr)
      else case ensure_privacy_mode_off w c tr of
             (Inl e, tr1) \<Rightarrow> (Inl e, tr1)
           | (Inr _, tr1) \<Rightarrow> invoke w c (MoveMotorStep angle) tr1)"

definition save_preset :: "world \<Rightarrow> controller \<Rightarrow> string \<Rightarrow> trace \<Rightarrow> (exn + pyval) \<times> trace" where
  "save_preset w c name tr =
     (case ensure_privacy_mode_off w c tr of
        (Inl e, tr1) \<Rightarrow> (Inl e, tr1)
      | (Inr _, tr1) \<Rightarrow> invoke w c (SavePreset name) tr1)"

text \<open>Preset identifiers are strings, on which \<^verbatim>\<open>str(preset_id)\<close> is the identity.\<close>

definition goto_preset :: "world \<Rightarrow> controller \<Rightarrow> string \<Rightarrow> trace \<Rightarrow> (exn + pyval) \<times> trace" where
  "goto_preset w c preset_id tr =
     (case ensure_privacy_mode_off w c tr of
        (Inl e, tr1) \<Rightarrow> (Inl e, tr1)
      | (Inr _, tr1) \<Rightarrow> invoke w c (SetPreset preset_id) tr1)"

definition calibrate :: "world \<Rightarrow> controller \<Rightarrow> trace \<Rightarrow> (exn + pyval) \<times> trace" where
  "calibrate w c tr = invoke w c CalibrateMotor tr"

text \<open>
  \<^verbatim>\<open>start_patrol\<close>: the body of the \<^verbatim>\<open>for\<close> loop, then the \<^verbatim>\<open>while True\<close> around
  it. The outer loop has no exit of its own, so it is run for a number of passes:
  \<open>None\<close> says that the loop is still running after them.
\<close>

fun patrol_for ::
  "world \<Rightarrow> controller \<Rightarrow> int \<Rightarrow> string list \<Rightarrow> trace \<Rightarrow> (exn + unit) \<times> trace" where
  "patrol_for w c interval_seconds [] tr = (Inr (), tr)"
| "patrol_for w c interval_seconds (preset_id # rest) tr =
     (case goto_preset w c preset_id tr of
        (Inl e, tr1) \<Rightarrow> (Inl e, tr1)
      | (Inr _, tr1) \<Rightarrow>
          (case sleep w interval_seconds tr1 of
             (Inl e, tr2) \<Rightarrow> (Inl e, tr2)
           | (Inr _, tr2) \<Rightarrow> patrol_for w c interval_seconds rest tr2))"

fun patrol_while ::
  "nat \<Rightarrow> world \<Rightarrow> controller \<Rightarrow> int \<Rightarrow> string list \<Rightarrow> trace \<Rightarrow> (exn + unit) option \<times> trace" where
  "patrol_while 0 w c interval_seconds preset_ids tr = (None, tr)"
| "patrol_while (Suc n) w c interval_seconds preset_ids tr =
     (case patrol_for w c interval_seconds preset_ids tr of
        (Inl e, tr1) \<Rightarrow> (Some (Inl e), tr1)
      | (Inr _, tr1) \<Rightarrow> patrol_while n w c interval_seconds preset_ids tr1)"

definition start_patrol ::
  "nat \<Rightarrow> world \<Rightarrow> controller \<Rightarrow> string list \<Rightarrow> int \<Rightarrow> trace \<Rightarrow> (exn + unit) option \<times> trace" where
  "start_patrol passes w c preset_ids interval_seconds tr =
     (case patrol_while passes w c interval_seconds preset_ids tr of
        (Some (Inl e), tr1) \<Rightarrow>
          (if e = KeyboardInterrupt then (Some (Inr ()), tr1) else (Some (Inl e), tr1))
      | r \<Rightarrow> r)"

section \<open>\<^verbatim>\<open>tapo_multi_camera.py\<close>: the fleet\<close>

text \<open>
  A Python dict keeps its keys in insertion order and assigning to a key that is present
  keeps the key's place: an association list under \<open>AList.update\<close>.

  \<^verbatim>\<open>apply_scene\<close> only reads the scene document, and is modelled on what it gets from
  \<^verbatim>\<open>open\<close> and \<^verbatim>\<open>json.load\<close>: no file, an exception of the loader, or a document,
  which is a dict of dicts of strings.
\<close>

type_synonym doc = "(string \<times> (string \<times> string) list) list"

datatype json_file = Missing | Unparsable | Holds doc

type_synonym files = "string \<Rightarrow> json_file"

record manager =
  cameras :: "(string \<times> controller) list"
  config_file :: string

definition init_manager :: manager where
  "init_manager = \<lparr>cameras = [], config_file = ''cameras_config.json''\<rparr>"

definition add_camera ::
  "world \<Rightarrow> manager \<Rightarrow> string \<Rightarrow> string \<Rightarrow> string \<Rightarrow> string \<Rightarrow> trace
     \<Rightarrow> (exn + bool) \<times> manager \<times> trace" where
  "add_camera w m camera_id h u p tr =
     (case connect w (init_controller h u p) tr of
        (Inl e, ctrl, tr1) \<Rightarrow> (Inl e, m, tr1)
      | (Inr ok, ctrl, tr1) \<Rightarrow>
          if ok then (Inr True, m\<lparr>cameras := AList.update camera_id ctrl (cameras m)\<rparr>, tr1)
          else (Inr False, m, tr1))"

definition remove_camera :: "manager \<Rightarrow> string \<Rightarrow> manager" where
  "remove_camera m camera_id =
     (if camera_id \<in> fst ` set (cameras m)
      then m\<lparr>cameras := AList.delete camera_id (cameras m)\<rparr> else m)"

definition get_camera :: "manager \<Rightarrow> string \<Rightarrow> controller option" where
  "get_camera m camera_id = map_of (cameras m) camera_id"

text \<open>
  The line a batch operation prints about a device once it is done with it, and the lines
  with which \<^verbatim>\<open>apply_scene\<close> gives up. The header of a batch and what the controller
  prints itself are not modelled.
\<close>

datatype line =
    Moved string string
  | Failed string exn
  | NotConnected string
  | NoScenesFile
  | NoSuchScene string

fun goto_preset_all_loop ::
  "world \<Rightarrow> (string \<times> controller) list \<Rightarrow> string \<Rightarrow> trace \<Rightarrow> line list
     \<Rightarrow> (exn + unit) \<times> trace \<times> line list" where
  "goto_preset_all_loop w [] preset_id tr out = (Inr (), tr, out)"
| "goto_preset_all_loop w ((cam_id, ctrl) # rest) preset_id tr out =
     (case goto_preset w ctrl preset_id tr of
        (Inl e, tr1) \<Rightarrow>
          if is_Exception e
          then goto_preset_all_loop w rest preset_id tr1 (out @ [Failed cam_id e])
          else (Inl e, tr1, out)
      | (Inr _, tr1) \<Rightarrow>
          goto_preset_all_loop w rest preset_id tr1 (out @ [Moved cam_id preset_id]))"

definition goto_preset_all ::
  "world \<Rightarrow> manager \<Rightarrow> string \<Rightarrow> trace \<Rightarrow> (exn + unit) \<times> trace \<times> line list" where
  "goto_preset_all w m preset_id tr = goto_preset_all_loop w (cameras m) preset_id tr []"

text \<open>\<^verbatim>\<open>len(v)\<close>\<close>

definition py_len :: "pyval \<Rightarrow> exn + nat" where
  "py_len v =
     (case v of
        PStr s \<Rightarrow> Inr (length s)
      | PList xs \<Rightarrow> Inr (length xs)
      | PDict d \<Rightarrow> Inr (length d)
      | _ \<Rightarrow> Inl TypeError)"

text \<open>
  \<^verbatim>\<open>get_all_presets\<close>: the entry is assigned before the line that prints
  \<^verbatim>\<open>len(presets)\<close>, and assigned again, empty, by the handler.
\<close>

fun get_all_presets_loop ::
  "world \<Rightarrow> (string \<times> controller) list \<Rightarrow> (string \<times> pyval) list \<Rightarrow> trace
     \<Rightarrow> (exn + (string \<times> pyval) list) \<times> trace" where
  "get_all_presets_loop w [] all_presets tr = (Inr all_presets, tr)"
| "get_all_presets_loop w ((cam_id, ctrl) # rest) all_presets tr =
     (case invoke w ctrl GetPresets tr of
        (Inl e, tr1) \<Rightarrow>
          if is_Exception e
          then get_all_presets_loop w rest (AList.update cam_id (PDict []) all_presets) tr1
          else (Inl e, tr1)
      | (Inr presets, tr1) \<Rightarrow>
          (let all_presets1 = AList.update cam_id presets all_presets in
           case py_len presets of
             Inl e \<Rightarrow>
               get_all_presets_loop w rest (AList.update cam_id (PDict []) all_presets1) tr1
           | Inr _ \<Rightarrow> get_all_presets_loop w rest all_presets1 tr1))"

definition get_all_presets ::
  "world \<Rightarrow> manager \<Rightarrow> trace \<Rightarrow> (exn + (string \<times> pyval) list) \<times> trace" where
  "get_all_presets w m tr = get_all_presets_loop w (cameras m) [] tr"

fun apply_scene_loop ::
  "world \<Rightarrow> manager \<Rightarrow> (string \<times> string) list \<Rightarrow> trace \<Rightarrow> line list
     \<Rightarrow> (exn + unit) \<times> trace \<times> line list" where
  "apply_scene_loop w m [] tr out = (Inr (), tr, out)"
| "apply_scene_loop w m ((cam_id, preset_id) # rest) tr out =
     (case map_of (cameras m) cam_id of
        Some ctrl \<Rightarrow>
          (case goto_preset w ctrl preset_id tr of
             (Inl e, tr1) \<Rightarrow>
               if is_Exception e
               then apply_scene_loop w m rest tr1 (out @ [Failed cam_id e])
               else (Inl e, tr1, out)
           | (Inr _, tr1) \<Rightarrow> apply_scene_loop w m rest tr1 (out @ [Moved cam_id preset_id]))
      | None \<Rightarrow> apply_scene_loop w m rest tr (out @ [NotConnected cam_id]))"

definition apply_scene ::
  "world \<Rightarrow> manager \<Rightarrow> files \<Rightarrow> string \<Rightarrow> trace \<Rightarrow> (exn + unit) \<times> trace \<times> line list" where
  "apply_scene w m fs scene_name tr =
     (case fs ''scenes.json'' of
        Missing \<Rightarrow> (Inr (), tr, [NoScenesFile])
      | Unparsable \<Rightarrow> (Inl JSONDecodeError, tr, [])
      | Holds scenes \<Rightarrow>
          (case map_of scenes scene_name of
             None \<Rightarrow> (Inr (), tr, [NoSuchScene scene_name])
           | Some camera_presets \<Rightarrow> apply_scene_loop w m camera_presets tr []))"

section \<open>Files and the JSON library\<close>

text \<open>
  \<^verbatim>\<open>create_scene\<close>, \<^verbatim>\<open>list_scenes\<close> and \<^verbatim>\<open>save_config\<close> read and write text files
  through \<^verbatim>\<open>open\<close>, \<^verbatim>\<open>json.load\<close> and \<^verbatim>\<open>json.dump\<close>. A disk maps a file name to
  the bytes of the file, if there is one.

  A Python str is modelled by the bytes of its UTF-8 form, and a lone surrogate
  (U+D800 to U+DFFF) by the three bytes the same scheme gives it: \<open>0xED\<close>, then a byte
  from \<open>0xA0\<close> to \<open>0xBF\<close>, then one more. The files are opened with
  \<^verbatim>\<open>encoding='utf-8'\<close>, whose strict encoder refuses a str that holds a surrogate.
\<close>

type_synonym disk = "string \<Rightarrow> string option"

fun has_surrogate :: "string \<Rightarrow> bool" where
  "has_surrogate (a # b # s) =
     (a = CHR 0xED \<and> (0xA0 :: nat) \<le> of_char b \<and> of_char b \<le> (0xBF :: nat) \<or>
      has_surrogate (b # s))"
| "has_surrogate s = False"

text \<open>
  What lies outside the repository is a parameter of the model: what \<^verbatim>\<open>json.load\<close>
  returns or raises on a file with given content, the strings that
  \<^verbatim>\<open>json.dump(obj, f, ensure_ascii=False, indent=2)\<close> passes to \<^verbatim>\<open>f.write\<close>, in order,
  and the error, if any, with which \<^verbatim>\<open>open\<close> refuses a file name in a mode (\<open>r\<close> or
  \<open>w\<close>). Nothing is assumed of them here; a theorem that needs the loader to read back
  what the dumper wrote says so. A loaded value is a \<open>pyval\<close>, which has no floating-point
  numbers: a document that holds one is outside the model.
\<close>

record runtime =
  json_load :: "string \<Rightarrow> exn + pyval"
  json_chunks :: "pyval \<Rightarrow> string list"
  open_fails :: "string \<Rightarrow> string \<Rightarrow> exn option"


text \<open>
  \<^verbatim>\<open>f.write(chunk)\<close> for every chunk: a chunk is encoded whole before any of it reaches
  the file, so the first chunk with a surrogate raises and the chunks before it stay
  written.
\<close>

fun write_chunks :: "string list \<Rightarrow> string \<Rightarrow> (exn + unit) \<times> string" where
  "write_chunks [] written = (Inr (), written)"
| "write_chunks (chunk # rest) written =
     (if has_surrogate chunk then (Inl UnicodeEncodeError, written)
      else write_chunks rest (written @ chunk))"

text \<open>
  \<^verbatim>\<open>with open(name, 'w', encoding='utf-8') as f: json.dump(obj, f, ensure_ascii=False, indent=2)\<close>.
  The empty name is a \<open>FileNotFoundError\<close>. Once open, the file is empty, and it is
  closed with what was written, also when the dump raises.
\<close>

definition dump_to :: "runtime \<Rightarrow> pyval \<Rightarrow> disk \<Rightarrow> string \<Rightarrow> (exn + unit) \<times> disk" where
  "dump_to rt obj fs name =
     (if name = [] then (Inl FileNotFoundError, fs)
      else case open_fails rt ''w'' name of
             Some e \<Rightarrow> (Inl e, fs)
           | None \<Rightarrow>
               (case write_chunks (json_chunks rt obj) [] of
                  (r, written) \<Rightarrow> (r, fs(name \<mapsto> written))))"





definition save_config ::
  "runtime \<Rightarrow> manager \<Rightarrow> disk \<Rightarrow> string option \<Rightarrow> (exn + unit) \<times> disk" where
  "save_config rt m fs filename =
     (let fname = (case filename of None \<Rightarrow> config_file m | Some f \<Rightarrow> f);
          config = fold (\<lambda>(cam_id, ctrl) config.
                      AList.update cam_id
                        (PDict [(''host'', PStr (host ctrl)), (''user'', PStr (user ctrl))]) config)
                    (cameras m) []
      in dump_to rt (PDict config) fs fname)"

section \<open>Example worlds and sessions\<close>

text \<open>
  A camera that answers every call, and remembers its privacy mode: the mode is the one
  of the last \<open>SetPrivacyMode\<close> in the trace, or the initial one.
\<close>

fun privacy_after :: "bool \<Rightarrow> trace \<Rightarrow> bool" where
  "privacy_after b [] = b"
| "privacy_after b (Call h (SetPrivacyMode b') # tr) = privacy_after b' tr"
| "privacy_after b (ev # tr) = privacy_after b tr"

definition camera_world :: "bool \<Rightarrow> world" where
  "camera_world init tr ev =
     (case ev of
        Call h GetPrivacyMode \<Rightarrow>
          Returns (PDict [(''enabled'', PStr (if privacy_after init tr then ''on'' else ''off''))])
      | Call h GetPresets \<Rightarrow> Returns (PDict [(''1'', PStr ''door''), (''2'', PStr ''desk'')])
      | _ \<Rightarrow> Returns PNone)"

definition cam :: controller where
  "cam = \<lparr>host = ''192.168.1.100'', user = ''admin'', password = ''secret'',
          tapo = Some (Tapo ''192.168.1.100'' ''admin'' ''secret''), motor_capability = None\<rparr>"

text \<open>
  A camera whose privacy mode is on and cannot be switched off, and one whose privacy mode
  cannot be read and whose presets cannot be recalled.
\<close>

definition stuck_privacy_world :: world where
  "stuck_privacy_world tr ev =
     (case ev of
        Call h GetPrivacyMode \<Rightarrow> Returns (PDict [(''enabled'', PStr ''on'')])
      | Call h (SetPrivacyMode b) \<Rightarrow> Raises (ClientError ''timeout'')
      | _ \<Rightarrow> Returns PNone)"

definition unreadable_privacy_world :: world where
  "unreadable_privacy_world tr ev =
     (case ev of
        Call h GetPrivacyMode \<Rightarrow> Raises (ClientError ''privacy'')
      | Call h (SetPreset p) \<Rightarrow> Raises (ClientError ''preset'')
      | _ \<Rightarrow> Returns PNone)"

text \<open>
  A fleet of three hosts: \<open>10.0.0.2\<close> refuses every connection, \<open>10.0.0.1\<close> connects but
  fails every preset recall, \<open>10.0.0.3\<close> does all it is asked. The registry after one
  successful add, after a further add that fails to connect, and after a further add
  under the identifier already registered.
\<close>

definition fleet_world :: world where
  "fleet_world tr ev =
     (case ev of
        Connect h u p \<Rightarrow>
          if h = ''10.0.0.2'' then Raises (ClientError ''unreachable'') else Returns PNone
      | Call h GetBasicInfo \<Rightarrow>
          Returns (PDict [(''device_info'',
            PDict [(''basic_info'', PDict [(''device_model'', PStr ''C225'')])])])
      | Call h GetMotorCapability \<Rightarrow>
          Returns (PDict [(''motor'', PDict [(''capability'', PDict [(''preset'', PStr ''1'')])])])
      | Call h GetPrivacyMode \<Rightarrow> Returns (PDict [(''enabled'', PStr ''off'')])
      | Call h GetPresets \<Rightarrow> Returns (PDict [(''1'', PStr ''door'')])
      | Call h (SetPreset p) \<Rightarrow>
          if h = ''10.0.0.1'' then Raises (ClientError ''motor'') else Returns PNone
      | _ \<Rightarrow> Returns PNone)"

definition one_add :: "(exn + bool) \<times> manager \<times> trace" where
  "one_add = add_camera fleet_world init_manager ''entrance'' ''10.0.0.1'' ''admin'' ''pw1'' []"

definition failed_add :: "(exn + bool) \<times> manager \<times> trace" where
  "failed_add =
     add_camera fleet_world (fst (snd one_add)) ''warehouse'' ''10.0.0.2'' ''admin'' ''pw2''
       (snd (snd one_add))"

definition duplicate_add :: "(exn + bool) \<times> manager \<times> trace" where
  "duplicate_add =
     add_camera fleet_world (fst (snd one_add)) ''entrance'' ''10.0.0.3'' ''admin'' ''pw3''
       (snd (snd one_add))"

text \<open>
  A registry of two connected cameras with given passwords, and the scene document, as
  \<^verbatim>\<open>apply_scene\<close> reads it, with a scene \<open>day\<close> over three cameras.
\<close>

definition office_fleet :: "string \<Rightarrow> string \<Rightarrow> manager" where
  "office_fleet pw1 pw2 =
     \<lparr>cameras =
        [(''entrance'',
          \<lparr>host = ''10.0.0.1'', user = ''admin'', password = pw1,
           tapo = Some (Tapo ''10.0.0.1'' ''admin'' pw1), motor_capability = None\<rparr>),
         (''office'',
          \<lparr>host = ''10.0.0.3'', user = ''admin'', password = pw2,
           tapo = Some (Tapo ''10.0.0.3'' ''admin'' pw2), motor_capability = None\<rparr>)],
      config_file = ''cameras_config.json''\<rparr>"

definition day_scene_files :: files where
  "day_scene_files name =
     (if name = ''scenes.json''
      then Holds [(''night'', [(''entrance'', ''2''), (''office'', ''2'')]),
                  (''day'', [(''entrance'', ''1''), (''warehouse'', ''2''), (''office'', ''3'')])]
      else Missing)"

text \<open>
  An instance of the runtime. The chunks are those CPython's encoder yields, with
  \<^verbatim>\<open>ensure_ascii=False\<close> and \<^verbatim>\<open>indent=2\<close>, for strings and for dicts of them, which is
  all the examples dump: a string between double quotes, with the quote, the backslash
  and the control characters escaped; an empty dict as \<open>{}\<close>; any other dict as an opening
  brace, a line break with the indentation, then for each item the key, a colon and a
  space, and the chunks of the value, the items separated by a comma and the line break,
  and a line break and the closing brace at the end.
\<close>

definition hex_digit :: "nat \<Rightarrow> char" where
  "hex_digit n = ''0123456789abcdef'' ! n"

definition escape_char :: "char \<Rightarrow> string" where
  "escape_char c =
     (if c = CHR 0x22 then [CHR 0x5C, CHR 0x22]
      else if c = CHR 0x5C then [CHR 0x5C, CHR 0x5C]
      else if c = CHR 0x0A then [CHR 0x5C, CHR ''n'']
      else if c = CHR 0x0D then [CHR 0x5C, CHR ''r'']
      else if c = CHR 0x09 then [CHR 0x5C, CHR ''t'']
      else if c = CHR 0x08 then [CHR 0x5C, CHR ''b'']
      else if c = CHR 0x0C then [CHR 0x5C, CHR ''f'']
      else if (of_char c :: nat) < 0x20
        then [CHR 0x5C, CHR ''u'', CHR ''0'', CHR ''0'',
              hex_digit (of_char c div 16), hex_digit (of_char c mod 16)]
      else [c])"

definition encode_str :: "string \<Rightarrow> string" where
  "encode_str s = CHR 0x22 # concat (map escape_char s) @ [CHR 0x22]"

fun indentation :: "nat \<Rightarrow> string" where
  "indentation 0 = []"
| "indentation (Suc level) = ''  '' @ indentation level"

definition newline_indent :: "nat \<Rightarrow> string" where
  "newline_indent level = CHR 0x0A # indentation level"

fun iterencode :: "nat \<Rightarrow> pyval \<Rightarrow> string list"
  and iterencode_items :: "nat \<Rightarrow> (string \<times> pyval) list \<Rightarrow> string list" where
  "iterencode level (PStr s) = [encode_str s]"
| "iterencode level (PDict []) = [''{}'']"
| "iterencode level (PDict (item # items)) =
     ''{'' # newline_indent (Suc level) # iterencode_items (Suc level) (item # items) @
     [newline_indent level, ''}'']"
| "iterencode_items level [] = []"
| "iterencode_items level [(key, v)] = encode_str key # '': '' # iterencode level v"
| "iterencode_items level ((key, v) # item # items) =
     encode_str key # '': '' # iterencode level v @
     ('','' @ newline_indent level) # iterencode_items level (item # items)"

text \<open>
  The two scene documents of the examples, and a loader that knows their texts and
  rejects every other text: it is not a parser, and stands for \<^verbatim>\<open>json.load\<close> on these
  texts and on the broken ones the examples produce.
\<close>

definition night_doc :: pyval where
  "night_doc = PDict [(''night'', PDict [(''entrance'', PStr ''2''), (''office'', PStr ''2'')])]"

definition night_day_doc :: pyval where
  "night_day_doc =
     PDict [(''night'', PDict [(''entrance'', PStr ''2''), (''office'', PStr ''2'')]),
            (''day'', PDict [(''entrance'', PStr ''1''), (''warehouse'', PStr ''2''),
                             (''office'', PStr ''3'')])]"

definition example_load :: "string \<Rightarrow> exn + pyval" where
  "example_load text =
     (if text = concat (iterencode 0 night_doc) then Inr night_doc
      else if text = concat (iterencode 0 night_day_doc) then Inr night_day_doc
      else Inl JSONDecodeError)"

definition example_runtime :: runtime where
  "example_runtime =
     \<lparr>json_load = example_load, json_chunks = iterencode 0, open_fails = (\<lambda>mode name. None)\<rparr>"

text \<open>A disk with no files, and one whose scene document holds the scene \<open>night\<close>.\<close>

definition no_files :: disk where
  "no_files name = None"


text \<open>
  Two hosts that are connected: \<open>10.0.0.1\<close> fails to list and to recall its presets,
  \<open>10.0.0.3\<close> does both.
\<close>

definition flaky_world :: world where
  "flaky_world tr ev =
     (case ev of
        Call h GetPrivacyMode \<Rightarrow> Returns (PDict [(''enabled'', PStr ''off'')])
      | Call h GetPresets \<Rightarrow>
          if h = ''10.0.0.1'' then Raises (ClientError ''timeout'')
          else Returns (PDict [(''1'', PStr ''door'')])
      | Call h (SetPreset p) \<Rightarrow>
          if h = ''10.0.0.1'' then Raises (ClientError ''motor'') else Returns PNone
      | _ \<Rightarrow> Returns PNone)"

text \<open>A camera whose privacy mode is off and whose preset \<open>2\<close> cannot be recalled.\<close>

definition jam_world :: world where
  "jam_world tr ev =
     (case ev of
        Call h GetPrivacyMode \<Rightarrow> Returns (PDict [(''enabled'', PStr ''off'')])
      | Call h (SetPreset p) \<Rightarrow>
          if p = ''2'' then Raises (ClientError ''jammed'') else Returns PNone
      | _ \<Rightarrow> Returns PNone)"

section \<open>Properties of one camera session\<close>

lemmas ctl_defs = goto_preset_def move_def move_step_def save_preset_def
  ensure_privacy_mode_off_def invoke_def perform_def sleep_def py_get_def swallow_def
  is_Exception_def

text \<open>
  Claim C1. Every positional operation (\<open>move\<close>, \<open>move_step\<close>, \<open>goto_preset\<close>,
  \<open>save_preset\<close>, \<open>calibrate\<close>) runs the privacy check before it contacts the device.
  \<open>calibrate\<close> does not: on a camera whose privacy mode is on, its only action is the
  calibration command itself, where \<open>goto_preset\<close> on the same camera first reads the
  mode, switches it off and waits.
\<close>

theorem calibrate_skips_privacy_check:
  "calibrate (camera_world True) cam [] =
     (Inr PNone, [Call ''192.168.1.100'' CalibrateMotor]) \<and>
   goto_preset (camera_world True) cam ''1'' [] =
     (Inr PNone,
      [Call ''192.168.1.100'' GetPrivacyMode, Call ''192.168.1.100'' (SetPrivacyMode False),
       Sleep 1, Call ''192.168.1.100'' (SetPreset ''1'')])"
  by (simp add: calibrate_def ctl_defs camera_world_def cam_def)

subsection \<open>What the privacy check does\<close>

lemma guard_connected:
  assumes "tapo c = Some t"
  shows "\<exists>r g. ensure_privacy_mode_off w c tr = (r, tr @ Call (tapo_host t) GetPrivacyMode # g) \<and>
           set g \<subseteq> {Call (tapo_host t) (SetPrivacyMode False), Sleep 1}"
  using assms
  by (auto simp: ensure_privacy_mode_off_def invoke_def perform_def sleep_def
      split: reply.splits sum.splits)

lemma guard_uninterrupted:
  assumes "\<forall>tr' ev. w tr' ev \<noteq> Raises KeyboardInterrupt"
  shows "\<exists>b. fst (ensure_privacy_mode_off w c tr) = Inr b"
  using assms
  by (auto simp: ensure_privacy_mode_off_def invoke_def perform_def sleep_def swallow_def is_Exception_def py_get_def
      split: reply.splits sum.splits option.splits pyval.splits)

lemma guard_privacy_on:
  assumes "tapo c = Some t"
    and "w tr (Call (tapo_host t) GetPrivacyMode) = Returns (PDict d)"
    and "map_of d ''enabled'' = Some (PStr ''on'')"
    and "w (tr @ [Call (tapo_host t) GetPrivacyMode]) (Call (tapo_host t) (SetPrivacyMode False))
           = Returns v1"
    and "w (tr @ [Call (tapo_host t) GetPrivacyMode, Call (tapo_host t) (SetPrivacyMode False)])
           (Sleep 1) = Returns v2"
  shows "ensure_privacy_mode_off w c tr =
           (Inr True, tr @ [Call (tapo_host t) GetPrivacyMode,
                            Call (tapo_host t) (SetPrivacyMode False), Sleep 1])"
  using assms
  by (simp add: ensure_privacy_mode_off_def invoke_def perform_def sleep_def py_get_def)

lemma guard_write_fails:
  assumes "tapo c = Some t"
    and "w tr (Call (tapo_host t) GetPrivacyMode) = Returns (PDict d)"
    and "map_of d ''enabled'' = Some (PStr ''on'')"
    and "w (tr @ [Call (tapo_host t) GetPrivacyMode]) (Call (tapo_host t) (SetPrivacyMode False))
           = Raises e"
    and "is_Exception e"
  shows "ensure_privacy_mode_off w c tr =
           (Inr False, tr @ [Call (tapo_host t) GetPrivacyMode,
                             Call (tapo_host t) (SetPrivacyMode False)])"
  using assms
  by (simp add: ensure_privacy_mode_off_def invoke_def perform_def sleep_def py_get_def
      swallow_def)

lemma guard_privacy_off:
  assumes "tapo c = Some t"
    and "w tr (Call (tapo_host t) GetPrivacyMode) = Returns (PDict d)"
    and "map_of d ''enabled'' \<noteq> Some (PStr ''on'')"
  shows "ensure_privacy_mode_off w c tr = (Inr True, tr @ [Call (tapo_host t) GetPrivacyMode])"
  using assms
  by (auto simp: ensure_privacy_mode_off_def invoke_def perform_def sleep_def py_get_def
      split: option.splits)

lemma guard_read_fails:
  assumes "tapo c = Some t"
    and "w tr (Call (tapo_host t) GetPrivacyMode) = Raises e"
    and "is_Exception e"
  shows "ensure_privacy_mode_off w c tr = (Inr False, tr @ [Call (tapo_host t) GetPrivacyMode])"
  using assms
  by (simp add: ensure_privacy_mode_off_def invoke_def perform_def swallow_def)

lemma guarded_commands:
  assumes "tapo c = Some t" and "ensure_privacy_mode_off w c tr = (Inr b, tr1)"
  shows "move w c x y tr = perform w (Call (tapo_host t) (MoveMotor x y)) tr1"
    and "goto_preset w c p tr = perform w (Call (tapo_host t) (SetPreset p)) tr1"
    and "save_preset w c n tr = perform w (Call (tapo_host t) (SavePreset n)) tr1"
    and "0 \<le> a \<and> a < 360 \<longrightarrow>
           move_step w c a tr = perform w (Call (tapo_host t) (MoveMotorStep a)) tr1"
  using assms
  by (simp_all add: move_def goto_preset_def save_preset_def move_step_def invoke_def)


text \<open>
  Claim C5. \<open>move_step\<close> fails with the validation error (Python's \<open>ValueError\<close>), the
  trace untouched, exactly when the angle is below 0 or at least 360. With an angle in
  range, on a connected session that no interrupt cuts short, the step command is issued
  after the events of the privacy check.
\<close>

theorem move_step_checks_angle:
  "(angle < 0 \<or> 360 \<le> angle \<longrightarrow> move_step w c angle tr = (Inl ValueError, tr)) \<and>
   (0 \<le> angle \<and> angle < 360 \<longrightarrow> move_step w c angle tr \<noteq> (Inl ValueError, tr)) \<and>
   (0 \<le> angle \<and> angle < 360 \<and> tapo c = Some t \<and>
      (\<forall>tr' ev. w tr' ev \<noteq> Raises KeyboardInterrupt) \<longrightarrow>
      (\<exists>g. move_step w c angle tr =
              perform w (Call (tapo_host t) (MoveMotorStep angle)) (tr @ g) \<and>
            set g \<subseteq> {Call (tapo_host t) GetPrivacyMode,
                       Call (tapo_host t) (SetPrivacyMode False), Sleep 1}))"
proof (intro conjI impI)
  assume "angle < 0 \<or> 360 \<le> angle"
  then show "move_step w c angle tr = (Inl ValueError, tr)"
    by (auto simp: move_step_def)
next
  assume range: "0 \<le> angle \<and> angle < 360"
  show "move_step w c angle tr \<noteq> (Inl ValueError, tr)"
  proof (cases "tapo c")
    case None
    with range show ?thesis
      by (simp add: move_step_def ensure_privacy_mode_off_def invoke_def swallow_def
          is_Exception_def)
  next
    case (Some t)
    from guard_connected [OF Some, of w tr]
    obtain r g where g: "ensure_privacy_mode_off w c tr =
        (r, tr @ Call (tapo_host t) GetPrivacyMode # g)"
      by blast
    with range Some show ?thesis
      by (cases r) (auto simp: move_step_def invoke_def perform_def split: reply.splits)
  qed
next
  assume h: "0 \<le> angle \<and> angle < 360 \<and> tapo c = Some t \<and>
      (\<forall>tr' ev. w tr' ev \<noteq> Raises KeyboardInterrupt)"
  then have conn: "tapo c = Some t" and quiet: "\<forall>tr' ev. w tr' ev \<noteq> Raises KeyboardInterrupt"
    by simp_all
  from guard_connected [OF conn, of w tr]
  obtain r g where g: "ensure_privacy_mode_off w c tr =
        (r, tr @ Call (tapo_host t) GetPrivacyMode # g)"
    and sub: "set g \<subseteq> {Call (tapo_host t) (SetPrivacyMode False), Sleep 1}"
    by blast
  from guard_uninterrupted [OF quiet, of c tr] g obtain b where r: "r = Inr b"
    by auto
  have "move_step w c angle tr =
      perform w (Call (tapo_host t) (MoveMotorStep angle))
        (tr @ (Call (tapo_host t) GetPrivacyMode # g))"
    using h g r by (simp add: move_step_def invoke_def)
  moreover have "set (Call (tapo_host t) GetPrivacyMode # g) \<subseteq>
      {Call (tapo_host t) GetPrivacyMode, Call (tapo_host t) (SetPrivacyMode False), Sleep 1}"
    using sub by auto
  ultimately show "\<exists>g. move_step w c angle tr =
              perform w (Call (tapo_host t) (MoveMotorStep angle)) (tr @ g) \<and>
            set g \<subseteq> {Call (tapo_host t) GetPrivacyMode,
                       Call (tapo_host t) (SetPrivacyMode False), Sleep 1}"
    by blast
qed

theorem move_step_checks_angle_witness:
  "move_step (camera_world False) cam 360 [] = (Inl ValueError, []) \<and>
   move_step (camera_world False) cam (- 1) [] = (Inl ValueError, []) \<and>
   move_step (camera_world False) cam 0 [] \<noteq> (Inl ValueError, []) \<and>
   (\<exists>g. move_step (camera_world False) cam 359 [] =
      perform (camera_world False) (Call ''192.168.1.100'' (MoveMotorStep 359)) ([] @ g) \<and>
      set g \<subseteq> {Call ''192.168.1.100'' GetPrivacyMode,
                 Call ''192.168.1.100'' (SetPrivacyMode False), Sleep 1})"
proof -
  have quiet: "\<forall>tr' ev. camera_world False tr' ev \<noteq> Raises KeyboardInterrupt"
    by (simp add: camera_world_def split: event.split call.split)
  have conn: "tapo cam = Some (Tapo ''192.168.1.100'' ''admin'' ''secret'')"
    by (simp add: cam_def)
  show ?thesis
    using move_step_checks_angle [of 360 "camera_world False" cam "[]"]
      move_step_checks_angle [of "- 1" "camera_world False" cam "[]"]
      move_step_checks_angle [of 0 "camera_world False" cam "[]"]
      move_step_checks_angle [of 359 "camera_world False" cam "[]"
        "Tapo ''192.168.1.100'' ''admin'' ''secret''"]
      quiet conn
    by simp
qed


text \<open>
  Claim C6, as stated: whenever the camera reports its privacy mode on, a positional
  command is preceded by the read, the write and the delay of one second. It fails where
  the write raises: the check gives up and the command follows the failed write at once.
\<close>

theorem write_failure_skips_delay:
  "stuck_privacy_world [] (Call ''192.168.1.100'' GetPrivacyMode) =
     Returns (PDict [(''enabled'', PStr ''on'')]) \<and>
   move stuck_privacy_world cam 10 0 [] =
     (Inr PNone,
      [Call ''192.168.1.100'' GetPrivacyMode, Call ''192.168.1.100'' (SetPrivacyMode False),
       Call ''192.168.1.100'' (MoveMotor 10 0)])"
  by (simp add: ctl_defs stuck_privacy_world_def cam_def)


text \<open>
  Claim C6, amended. For \<open>move\<close>, \<open>goto_preset\<close>, \<open>save_preset\<close> and \<open>move_step\<close> on a
  connected session whose privacy read returns a dict: if the mode is on and both the write
  and the delay return, the command comes after exactly the read, the write and the delay
  of one second; if the mode is on and the write raises an \<open>Exception\<close>, after the read and
  the failed write; if the mode is not on, right after the read.
\<close>

theorem guarded_command_order:
  assumes "tapo c = Some t"
    and "w tr (Call (tapo_host t) GetPrivacyMode) = Returns (PDict d)"
  shows
   "(map_of d ''enabled'' = Some (PStr ''on'') \<and>
     w (tr @ [Call (tapo_host t) GetPrivacyMode]) (Call (tapo_host t) (SetPrivacyMode False))
       = Returns v1 \<and>
     w (tr @ [Call (tapo_host t) GetPrivacyMode, Call (tapo_host t) (SetPrivacyMode False)])
       (Sleep 1) = Returns v2 \<longrightarrow>
       (let tr1 = tr @ [Call (tapo_host t) GetPrivacyMode,
                        Call (tapo_host t) (SetPrivacyMode False), Sleep 1] in
        move w c x y tr = perform w (Call (tapo_host t) (MoveMotor x y)) tr1 \<and>
        goto_preset w c p tr = perform w (Call (tapo_host t) (SetPreset p)) tr1 \<and>
        save_preset w c n tr = perform w (Call (tapo_host t) (SavePreset n)) tr1 \<and>
        (0 \<le> a \<and> a < 360 \<longrightarrow>
           move_step w c a tr = perform w (Call (tapo_host t) (MoveMotorStep a)) tr1))) \<and>
    (map_of d ''enabled'' = Some (PStr ''on'') \<and>
     w (tr @ [Call (tapo_host t) GetPrivacyMode]) (Call (tapo_host t) (SetPrivacyMode False))
       = Raises e \<and> is_Exception e \<longrightarrow>
       (let tr1 = tr @ [Call (tapo_host t) GetPrivacyMode,
                        Call (tapo_host t) (SetPrivacyMode False)] in
        move w c x y tr = perform w (Call (tapo_host t) (MoveMotor x y)) tr1 \<and>
        goto_preset w c p tr = perform w (Call (tapo_host t) (SetPreset p)) tr1 \<and>
        save_preset w c n tr = perform w (Call (tapo_host t) (SavePreset n)) tr1 \<and>
        (0 \<le> a \<and> a < 360 \<longrightarrow>
           move_step w c a tr = perform w (Call (tapo_host t) (MoveMotorStep a)) tr1))) \<and>
    (map_of d ''enabled'' \<noteq> Some (PStr ''on'') \<longrightarrow>
       (let tr1 = tr @ [Call (tapo_host t) GetPrivacyMode] in
        move w c x y tr = perform w (Call (tapo_host t) (MoveMotor x y)) tr1 \<and>
        goto_preset w c p tr = perform w (Call (tapo_host t) (SetPreset p)) tr1 \<and>
        save_preset w c n tr = perform w (Call (tapo_host t) (SavePreset n)) tr1 \<and>
        (0 \<le> a \<and> a < 360 \<longrightarrow>
           move_step w c a tr = perform w (Call (tapo_host t) (MoveMotorStep a)) tr1)))"
proof (intro conjI impI)
  assume h: "map_of d ''enabled'' = Some (PStr ''on'') \<and>
     w (tr @ [Call (tapo_host t) GetPrivacyMode]) (Call (tapo_host t) (SetPrivacyMode False))
       = Returns v1 \<and>
     w (tr @ [Call (tapo_host t) GetPrivacyMode, Call (tapo_host t) (SetPrivacyMode False)])
       (Sleep 1) = Returns v2"
  have "ensure_privacy_mode_off w c tr =
           (Inr True, tr @ [Call (tapo_host t) GetPrivacyMode,
                            Call (tapo_host t) (SetPrivacyMode False), Sleep 1])"
    using guard_privacy_on [of c t w tr d v1 v2] assms h by simp
  from guarded_commands [OF assms(1) this]
  show "let tr1 = tr @ [Call (tapo_host t) GetPrivacyMode,
                        Call (tapo_host t) (SetPrivacyMode False), Sleep 1] in
        move w c x y tr = perform w (Call (tapo_host t) (MoveMotor x y)) tr1 \<and>
        goto_preset w c p tr = perform w (Call (tapo_host t) (SetPreset p)) tr1 \<and>
        save_preset w c n tr = perform w (Call (tapo_host t) (SavePreset n)) tr1 \<and>
        (0 \<le> a \<and> a < 360 \<longrightarrow>
           move_step w c a tr = perform w (Call (tapo_host t) (MoveMotorStep a)) tr1)"
    by (simp add: Let_def)
next
  assume h: "map_of d ''enabled'' = Some (PStr ''on'') \<and>
     w (tr @ [Call (tapo_host t) GetPrivacyMode]) (Call (tapo_host t) (SetPrivacyMode False))
       = Raises e \<and> is_Exception e"
  have "ensure_privacy_mode_off w c tr =
           (Inr False, tr @ [Call (tapo_host t) GetPrivacyMode,
                             Call (tapo_host t) (SetPrivacyMode False)])"
    using guard_write_fails [of c t w tr d e] assms h by simp
  from guarded_commands [OF assms(1) this]
  show "let tr1 = tr @ [Call (tapo_host t) GetPrivacyMode,
                        Call (tapo_host t) (SetPrivacyMode False)] in
        move w c x y tr = perform w (Call (tapo_host t) (MoveMotor x y)) tr1 \<and>
        goto_preset w c p tr = perform w (Call (tapo_host t) (SetPreset p)) tr1 \<and>
        save_preset w c n tr = perform w (Call (tapo_host t) (SavePreset n)) tr1 \<and>
        (0 \<le> a \<and> a < 360 \<longrightarrow>
           move_step w c a tr = perform w (Call (tapo_host t) (MoveMotorStep a)) tr1)"
    by (simp add: Let_def)
next
  assume h: "map_of d ''enabled'' \<noteq> Some (PStr ''on'')"
  have "ensure_privacy_mode_off w c tr = (Inr True, tr @ [Call (tapo_host t) GetPrivacyMode])"
    using guard_privacy_off [of c t w tr d] assms h by simp
  from guarded_commands [OF assms(1) this]
  show "let tr1 = tr @ [Call (tapo_host t) GetPrivacyMode] in
        move w c x y tr = perform w (Call (tapo_host t) (MoveMotor x y)) tr1 \<and>
        goto_preset w c p tr = perform w (Call (tapo_host t) (SetPreset p)) tr1 \<and>
        save_preset w c n tr = perform w (Call (tapo_host t) (SavePreset n)) tr1 \<and>
        (0 \<le> a \<and> a < 360 \<longrightarrow>
           move_step w c a tr = perform w (Call (tapo_host t) (MoveMotorStep a)) tr1)"
    by (simp add: Let_def)
qed

theorem guarded_command_order_witness:
  "move (camera_world True) cam 10 0 [] =
     (Inr PNone,
      [Call ''192.168.1.100'' GetPrivacyMode, Call ''192.168.1.100'' (SetPrivacyMode False),
       Sleep 1, Call ''192.168.1.100'' (MoveMotor 10 0)]) \<and>
   move_step stuck_privacy_world cam 90 [] =
     (Inr PNone,
      [Call ''192.168.1.100'' GetPrivacyMode, Call ''192.168.1.100'' (SetPrivacyMode False),
       Call ''192.168.1.100'' (MoveMotorStep 90)]) \<and>
   goto_preset (camera_world False) cam ''2'' [] =
     (Inr PNone, [Call ''192.168.1.100'' GetPrivacyMode, Call ''192.168.1.100'' (SetPreset ''2'')])"
proof -
  have conn: "tapo cam = Some (Tapo ''192.168.1.100'' ''admin'' ''secret'')"
    by (simp add: cam_def)
  have on: "camera_world True [] (Call (tapo_host (Tapo ''192.168.1.100'' ''admin'' ''secret''))
      GetPrivacyMode) = Returns (PDict [(''enabled'', PStr ''on'')])"
    by (simp add: camera_world_def)
  have stuck: "stuck_privacy_world [] (Call (tapo_host (Tapo ''192.168.1.100'' ''admin'' ''secret''))
      GetPrivacyMode) = Returns (PDict [(''enabled'', PStr ''on'')])"
    by (simp add: stuck_privacy_world_def)
  have off: "camera_world False [] (Call (tapo_host (Tapo ''192.168.1.100'' ''admin'' ''secret''))
      GetPrivacyMode) = Returns (PDict [(''enabled'', PStr ''off'')])"
    by (simp add: camera_world_def)
  show ?thesis
    using guarded_command_order [where c = cam and w = "camera_world True" and tr = "[]"
        and t = "Tapo ''192.168.1.100'' ''admin'' ''secret''"
        and d = "[(''enabled'', PStr ''on'')]" and ?v1.0 = PNone and ?v2.0 = PNone
        and x = 10 and y = 0 and p = "''1''" and n = "''n''" and a = 0 and e = ValueError]
      guarded_command_order [where c = cam and w = stuck_privacy_world and tr = "[]"
        and t = "Tapo ''192.168.1.100'' ''admin'' ''secret''"
        and d = "[(''enabled'', PStr ''on'')]" and ?v1.0 = PNone and ?v2.0 = PNone
        and x = 10 and y = 0 and p = "''1''" and n = "''n''" and a = 90
        and e = "ClientError ''timeout''"]
      guarded_command_order [where c = cam and w = "camera_world False" and tr = "[]"
        and t = "Tapo ''192.168.1.100'' ''admin'' ''secret''"
        and d = "[(''enabled'', PStr ''off'')]" and ?v1.0 = PNone and ?v2.0 = PNone
        and x = 10 and y = 0 and p = "''2''" and n = "''n''" and a = 0 and e = ValueError]
      conn on stuck off
    by (simp add: camera_world_def stuck_privacy_world_def perform_def is_Exception_def Let_def)
qed


text \<open>
  Claim C7. When the read of the privacy mode raises an \<open>Exception\<close>, the check returns
  \<open>False\<close> instead of raising, and the guarded command is issued right after the failed
  read: its outcome is the outcome of the command alone.
\<close>

theorem privacy_read_failure_not_propagated:
  assumes "tapo c = Some t"
    and "w tr (Call (tapo_host t) GetPrivacyMode) = Raises e"
    and "is_Exception e"
  shows "ensure_privacy_mode_off w c tr = (Inr False, tr @ [Call (tapo_host t) GetPrivacyMode]) \<and>
    move w c x y tr =
      perform w (Call (tapo_host t) (MoveMotor x y)) (tr @ [Call (tapo_host t) GetPrivacyMode]) \<and>
    goto_preset w c p tr =
      perform w (Call (tapo_host t) (SetPreset p)) (tr @ [Call (tapo_host t) GetPrivacyMode]) \<and>
    save_preset w c n tr =
      perform w (Call (tapo_host t) (SavePreset n)) (tr @ [Call (tapo_host t) GetPrivacyMode]) \<and>
    (0 \<le> a \<and> a < 360 \<longrightarrow>
       move_step w c a tr =
         perform w (Call (tapo_host t) (MoveMotorStep a))
           (tr @ [Call (tapo_host t) GetPrivacyMode]))"
proof -
  have g: "ensure_privacy_mode_off w c tr =
      (Inr False, tr @ [Call (tapo_host t) GetPrivacyMode])"
    using assms by (rule guard_read_fails)
  from guarded_commands [OF assms(1) g] g show ?thesis
    by simp
qed

theorem privacy_read_failure_not_propagated_witness:
  "ensure_privacy_mode_off unreadable_privacy_world cam [] =
     (Inr False, [Call ''192.168.1.100'' GetPrivacyMode]) \<and>
   move unreadable_privacy_world cam 10 0 [] =
     (Inr PNone, [Call ''192.168.1.100'' GetPrivacyMode, Call ''192.168.1.100'' (MoveMotor 10 0)]) \<and>
   goto_preset unreadable_privacy_world cam ''1'' [] =
     (Inl (ClientError ''preset''),
      [Call ''192.168.1.100'' GetPrivacyMode, Call ''192.168.1.100'' (SetPreset ''1'')])"
proof -
  have conn: "tapo cam = Some (Tapo ''192.168.1.100'' ''admin'' ''secret'')"
    by (simp add: cam_def)
  have rd: "unreadable_privacy_world []
      (Call (tapo_host (Tapo ''192.168.1.100'' ''admin'' ''secret'')) GetPrivacyMode) =
      Raises (ClientError ''privacy'')"
    by (simp add: unreadable_privacy_world_def)
  have ex: "is_Exception (ClientError ''privacy'')"
    by (simp add: is_Exception_def)
  show ?thesis
    using privacy_read_failure_not_propagated [where c = cam and w = unreadable_privacy_world
        and tr = "[]" and t = "Tapo ''192.168.1.100'' ''admin'' ''secret''"
        and e = "ClientError ''privacy''" and x = 10 and y = 0 and p = "''1''" and n = "''n''"
        and a = 0]
      conn rd ex
    by (simp add: unreadable_privacy_world_def perform_def)
qed

section \<open>Properties of the fleet\<close>

lemmas mgr_defs = add_camera_def connect_def get_motor_capability_def init_controller_def
  init_manager_def


lemma one_add_eval:
  "one_add = (Inr True,
     \<lparr>cameras = [(''entrance'',
         \<lparr>host = ''10.0.0.1'', user = ''admin'', password = ''pw1'',
          tapo = Some (Tapo ''10.0.0.1'' ''admin'' ''pw1''),
          motor_capability = Some (PDict [(''preset'', PStr ''1'')])\<rparr>)],
      config_file = ''cameras_config.json''\<rparr>,
     [Connect ''10.0.0.1'' ''admin'' ''pw1'', Call ''10.0.0.1'' GetBasicInfo,
      Call ''10.0.0.1'' GetMotorCapability])"
  by (simp add: one_add_def mgr_defs ctl_defs fleet_world_def)

lemma fleet_world_quiet: "\<forall>tr' ev. fleet_world tr' ev \<noteq> Raises KeyboardInterrupt"
  by (simp add: fleet_world_def split: event.split call.split)


lemma invoke_quiet:
  assumes "\<forall>tr' ev. w tr' ev \<noteq> Raises KeyboardInterrupt"
    and "invoke w c cl tr = (Inl e, tr1)"
  shows "is_Exception e"
  using assms
  by (auto simp: invoke_def perform_def is_Exception_def split: option.splits reply.splits)

lemma update_fresh: "k \<notin> fst ` set al \<Longrightarrow> AList.update k v al = al @ [(k, v)]"
  by (induction al) auto

lemma update_fresh_again:
  "k \<notin> fst ` set al \<Longrightarrow> AList.update k v' (al @ [(k, v)]) = al @ [(k, v')]"
  by (induction al) auto

lemma get_all_presets_step:
  assumes "\<forall>tr' ev. w tr' ev \<noteq> Raises KeyboardInterrupt"
    and "cam_id \<notin> fst ` set acc"
  shows "get_all_presets_loop w ((cam_id, ctrl) # rest) acc tr =
     get_all_presets_loop w rest
       (acc @ [(cam_id,
          case invoke w ctrl GetPresets tr of
            (Inl e, t) \<Rightarrow> PDict []
          | (Inr presets, t) \<Rightarrow>
              (case py_len presets of Inl e \<Rightarrow> PDict [] | Inr n \<Rightarrow> presets))])
       (snd (invoke w ctrl GetPresets tr))"
proof -
  obtain r tr1 where inv: "invoke w ctrl GetPresets tr = (r, tr1)"
    by (cases "invoke w ctrl GetPresets tr")
  show ?thesis
  proof (cases r)
    case (Inl e)
    with inv assms(1) have "is_Exception e"
      by (auto dest: invoke_quiet)
    with inv Inl assms(2) show ?thesis
      by (simp add: update_fresh)
  next
    case (Inr presets)
    with inv assms(2) show ?thesis
      by (cases "py_len presets") (simp_all add: update_fresh update_fresh_again)
  qed
qed

lemma get_all_presets_loop_entries:
  assumes quiet: "\<forall>tr' ev. w tr' ev \<noteq> Raises KeyboardInterrupt"
  shows "distinct (map fst items) \<Longrightarrow> fst ` set items \<inter> fst ` set acc = {} \<Longrightarrow>
     \<exists>res. get_all_presets_loop w items acc tr =
         (Inr (acc @ res),
          fold (\<lambda>(cam_id, ctrl) t. snd (invoke w ctrl GetPresets t)) items tr) \<and>
       map fst res = map fst items \<and>
       (\<forall>i < length items.
          snd (res ! i) =
            (case invoke w (snd (items ! i)) GetPresets
                    (fold (\<lambda>(cam_id, ctrl) t. snd (invoke w ctrl GetPresets t))
                       (take i items) tr) of
               (Inl e, t) \<Rightarrow> PDict []
             | (Inr presets, t) \<Rightarrow>
                 (case py_len presets of Inl e \<Rightarrow> PDict [] | Inr n \<Rightarrow> presets)))"
proof (induction items arbitrary: acc tr)
  case Nil
  show ?case by simp
next
  case (Cons item items)
  let ?step = "\<lambda>(cam_id, ctrl) t. snd (invoke w ctrl GetPresets t)"
  let ?entry = "\<lambda>ctrl t. case invoke w ctrl GetPresets t of
        (Inl e, t') \<Rightarrow> PDict []
      | (Inr presets, t') \<Rightarrow>
          (case py_len presets of Inl e \<Rightarrow> PDict [] | Inr n \<Rightarrow> presets)"
  obtain cam_id ctrl where item: "item = (cam_id, ctrl)"
    by (cases item)
  from Cons.prems item have fresh: "cam_id \<notin> fst ` set acc"
    by auto
  have step: "get_all_presets_loop w (item # items) acc tr =
      get_all_presets_loop w items (acc @ [(cam_id, ?entry ctrl tr)])
        (snd (invoke w ctrl GetPresets tr))"
    unfolding item using quiet fresh by (rule get_all_presets_step)
  from Cons.prems item have "distinct (map fst items)"
    and "fst ` set items \<inter> fst ` set (acc @ [(cam_id, ?entry ctrl tr)]) = {}"
    by auto
  from Cons.IH [OF this, of "snd (invoke w ctrl GetPresets tr)"]
  obtain res where
    run: "get_all_presets_loop w items (acc @ [(cam_id, ?entry ctrl tr)])
         (snd (invoke w ctrl GetPresets tr)) =
       (Inr ((acc @ [(cam_id, ?entry ctrl tr)]) @ res),
        fold ?step items (snd (invoke w ctrl GetPresets tr)))"
    and keys: "map fst res = map fst items"
    and vals: "\<forall>i < length items.
          snd (res ! i) =
            ?entry (snd (items ! i))
              (fold ?step (take i items) (snd (invoke w ctrl GetPresets tr)))"
    by blast
  have "\<forall>i < length (item # items).
      snd (((cam_id, ?entry ctrl tr) # res) ! i) =
        ?entry (snd ((item # items) ! i)) (fold ?step (take i (item # items)) tr)"
  proof (intro allI impI)
    fix i
    assume "i < length (item # items)"
    then show "snd (((cam_id, ?entry ctrl tr) # res) ! i) =
        ?entry (snd ((item # items) ! i)) (fold ?step (take i (item # items)) tr)"
      using vals item by (cases i) (simp_all split: prod.splits sum.splits)
  qed
  with step run keys item show ?case
    by (intro exI [of _ "(cam_id, ?entry ctrl tr) # res"]) simp
qed

lemma get_all_presets_loop_trace:
  assumes "\<forall>tr' ev. w tr' ev \<noteq> Raises KeyboardInterrupt"
  shows "\<exists>res. get_all_presets_loop w items acc tr =
       (Inr res, fold (\<lambda>(cam_id, ctrl) t. snd (invoke w ctrl GetPresets t)) items tr) \<and>
     fst ` set res = fst ` set acc \<union> fst ` set items"
proof (induction items arbitrary: acc tr)
  case Nil
  show ?case by simp
next
  case (Cons item items)
  obtain cam_id ctrl where item: "item = (cam_id, ctrl)"
    by (cases item)
  obtain r tr1 where inv: "invoke w ctrl GetPresets tr = (r, tr1)"
    by (cases "invoke w ctrl GetPresets tr")
  show ?case
  proof (cases r)
    case (Inl e)
    with inv assms have "is_Exception e"
      by (auto dest: invoke_quiet)
    with Cons.IH [of "AList.update cam_id (PDict []) acc" tr1] item inv Inl show ?thesis
      by (auto simp: AList.dom_update)
  next
    case (Inr presets)
    show ?thesis
    proof (cases "py_len presets")
      case (Inl e)
      with Cons.IH [of "AList.update cam_id (PDict []) (AList.update cam_id presets acc)" tr1]
        item inv Inr show ?thesis
        by (auto simp: AList.dom_update)
    next
      case (Inr n)
      with Cons.IH [of "AList.update cam_id presets acc" tr1] item inv \<open>r = Inr presets\<close>
      show ?thesis
        by (auto simp: AList.dom_update)
    qed
  qed
qed

lemma goto_preset_quiet:
  assumes "\<forall>tr' ev. w tr' ev \<noteq> Raises KeyboardInterrupt"
  shows "\<exists>r evs. goto_preset w c p tr = (r, tr @ evs) \<and> (\<forall>e. r = Inl e \<longrightarrow> is_Exception e) \<and>
           (\<forall>t. tapo c = Some t \<longrightarrow> Call (tapo_host t) (SetPreset p) \<in> set evs)"
proof (cases "tapo c")
  case None
  then show ?thesis
    by (simp add: goto_preset_def ensure_privacy_mode_off_def invoke_def swallow_def
        is_Exception_def)
next
  case (Some t)
  from guard_connected [OF Some, of w tr]
  obtain r g where g: "ensure_privacy_mode_off w c tr =
        (r, tr @ Call (tapo_host t) GetPrivacyMode # g)"
    by blast
  from guard_uninterrupted [OF assms, of c tr] g obtain b where r: "r = Inr b"
    by auto
  have "goto_preset w c p tr =
      perform w (Call (tapo_host t) (SetPreset p)) (tr @ Call (tapo_host t) GetPrivacyMode # g)"
    using guarded_commands(2) [OF Some g [unfolded r]] .
  with Some assms show ?thesis
    by (auto simp: perform_def is_Exception_def split: reply.splits)
qed

lemma goto_preset_all_loop_outcomes:
  assumes quiet: "\<forall>tr' ev. w tr' ev \<noteq> Raises KeyboardInterrupt"
  shows "\<exists>new. goto_preset_all_loop w items p tr out =
       (Inr (), fold (\<lambda>(cam_id, ctrl) t. snd (goto_preset w ctrl p t)) items tr, out @ new) \<and>
     length new = length items \<and>
     (\<forall>i < length items.
        new ! i =
          (case fst (goto_preset w (snd (items ! i)) p
                  (fold (\<lambda>(cam_id, ctrl) t. snd (goto_preset w ctrl p t)) (take i items) tr)) of
             Inl e \<Rightarrow> Failed (fst (items ! i)) e
           | Inr v \<Rightarrow> Moved (fst (items ! i)) p))"
proof (induction items arbitrary: tr out)
  case Nil
  show ?case by simp
next
  case (Cons item items)
  let ?step = "\<lambda>(cam_id, ctrl) t. snd (goto_preset w ctrl p t)"
  let ?line = "\<lambda>cam_id ctrl t. case fst (goto_preset w ctrl p t) of
        Inl e \<Rightarrow> Failed cam_id e | Inr v \<Rightarrow> Moved cam_id p"
  obtain cam_id ctrl where item: "item = (cam_id, ctrl)"
    by (cases item)
  from goto_preset_quiet [OF quiet, of ctrl p tr]
  obtain r evs where g: "goto_preset w ctrl p tr = (r, tr @ evs)"
    and ex: "\<forall>e. r = Inl e \<longrightarrow> is_Exception e"
    by blast
  have step: "goto_preset_all_loop w (item # items) p tr out =
      goto_preset_all_loop w items p (snd (goto_preset w ctrl p tr)) (out @ [?line cam_id ctrl tr])"
    using item g ex by (cases r) simp_all
  from Cons.IH [of "snd (goto_preset w ctrl p tr)" "out @ [?line cam_id ctrl tr]"]
  obtain new where
    run: "goto_preset_all_loop w items p (snd (goto_preset w ctrl p tr))
         (out @ [?line cam_id ctrl tr]) =
       (Inr (), fold ?step items (snd (goto_preset w ctrl p tr)),
        (out @ [?line cam_id ctrl tr]) @ new)"
    and len: "length new = length items"
    and lines: "\<forall>i < length items.
        new ! i = ?line (fst (items ! i)) (snd (items ! i))
          (fold ?step (take i items) (snd (goto_preset w ctrl p tr)))"
    by blast
  have "\<forall>i < length (item # items).
      (?line cam_id ctrl tr # new) ! i =
        ?line (fst ((item # items) ! i)) (snd ((item # items) ! i))
          (fold ?step (take i (item # items)) tr)"
  proof (intro allI impI)
    fix i
    assume "i < length (item # items)"
    then show "(?line cam_id ctrl tr # new) ! i =
        ?line (fst ((item # items) ! i)) (snd ((item # items) ! i))
          (fold ?step (take i (item # items)) tr)"
      using lines item by (cases i) (simp_all split: sum.splits)
  qed
  with step run len item show ?case
    by (intro exI [of _ "?line cam_id ctrl tr # new"]) simp
qed

text \<open>
  Claim C2, as stated: a batch returns one entry for every requested identifier, also for
  those that are not registered. The batch operations take no identifiers: they run over
  the registry. Asked to add \<open>entrance\<close> and \<open>warehouse\<close>, the manager registers only the
  first, since the second does not connect, and the collected presets have the single key
  \<open>entrance\<close>.
\<close>

theorem unregistered_camera_has_no_entry:
  "fst failed_add = Inr False \<and>
   fst (get_all_presets fleet_world (fst (snd failed_add)) (snd (snd failed_add))) =
     Inr [(''entrance'', PDict [(''1'', PStr ''door'')])]"
  by (simp add: failed_add_def one_add_eval get_all_presets_def py_len_def mgr_defs ctl_defs
      fleet_world_def)


text \<open>
  Claim C2, amended. Unless an interrupt arrives, \<open>get_all_presets\<close> asks every
  registered camera for its presets, in registry order and whatever the cameras before it
  answered, and returns a dict whose key set is exactly the set of registered identifiers.
  With the identifiers distinct, as in a Python dict, the entries are in registry order,
  and the entry of a camera is what the call on it returned, if it returned a value that
  has a length, and the empty dict if it raised or returned anything else.
  \<open>goto_preset_all\<close> returns nothing: it runs \<open>goto_preset\<close> on every registered camera,
  in registry order and whatever the cameras before it did, and prints about each of
  them \<open>Moved\<close> if the recall on that camera returned and \<open>Failed\<close>, with the exception, if
  it raised.
\<close>

theorem batch_covers_registered_cameras:
  assumes "\<forall>tr' ev. w tr' ev \<noteq> Raises KeyboardInterrupt"
  shows
   "(\<exists>res.
       get_all_presets w m tr =
         (Inr res,
          fold (\<lambda>(cam_id, ctrl) t. snd (invoke w ctrl GetPresets t)) (cameras m) tr) \<and>
       fst ` set res = fst ` set (cameras m) \<and>
       (distinct (map fst (cameras m)) \<longrightarrow>
          map fst res = map fst (cameras m) \<and>
          (\<forall>i < length (cameras m).
             snd (res ! i) =
               (case invoke w (snd (cameras m ! i)) GetPresets
                       (fold (\<lambda>(cam_id, ctrl) t. snd (invoke w ctrl GetPresets t))
                          (take i (cameras m)) tr) of
                  (Inl e, t) \<Rightarrow> PDict []
                | (Inr presets, t) \<Rightarrow>
                    (case py_len presets of Inl e \<Rightarrow> PDict [] | Inr n \<Rightarrow> presets))))) \<and>
    (\<exists>out.
       goto_preset_all w m p tr =
         (Inr (),
          fold (\<lambda>(cam_id, ctrl) t. snd (goto_preset w ctrl p t)) (cameras m) tr, out) \<and>
       length out = length (cameras m) \<and>
       (\<forall>i < length (cameras m).
          out ! i =
            (case fst (goto_preset w (snd (cameras m ! i)) p
                    (fold (\<lambda>(cam_id, ctrl) t. snd (goto_preset w ctrl p t))
                       (take i (cameras m)) tr)) of
               Inl e \<Rightarrow> Failed (fst (cameras m ! i)) e
             | Inr v \<Rightarrow> Moved (fst (cameras m ! i)) p)))"
proof (intro conjI)
  from get_all_presets_loop_trace [OF assms, of "cameras m" "[]" tr]
  obtain res where run: "get_all_presets w m tr =
       (Inr res, fold (\<lambda>(cam_id, ctrl) t. snd (invoke w ctrl GetPresets t)) (cameras m) tr)"
    and keys: "fst ` set res = fst ` set (cameras m)"
    by (auto simp: get_all_presets_def)
  have "map fst res = map fst (cameras m) \<and>
          (\<forall>i < length (cameras m).
             snd (res ! i) =
               (case invoke w (snd (cameras m ! i)) GetPresets
                       (fold (\<lambda>(cam_id, ctrl) t. snd (invoke w ctrl GetPresets t))
                          (take i (cameras m)) tr) of
                  (Inl e, t) \<Rightarrow> PDict []
                | (Inr presets, t) \<Rightarrow>
                    (case py_len presets of Inl e \<Rightarrow> PDict [] | Inr n \<Rightarrow> presets)))"
    if "distinct (map fst (cameras m))"
    using get_all_presets_loop_entries [OF assms that, of "[]" tr] run
    by (auto simp: get_all_presets_def)
  with run keys show "\<exists>res.
       get_all_presets w m tr =
         (Inr res,
          fold (\<lambda>(cam_id, ctrl) t. snd (invoke w ctrl GetPresets t)) (cameras m) tr) \<and>
       fst ` set res = fst ` set (cameras m) \<and>
       (distinct (map fst (cameras m)) \<longrightarrow>
          map fst res = map fst (cameras m) \<and>
          (\<forall>i < length (cameras m).
             snd (res ! i) =
               (case invoke w (snd (cameras m ! i)) GetPresets
                       (fold (\<lambda>(cam_id, ctrl) t. snd (invoke w ctrl GetPresets t))
                          (take i (cameras m)) tr) of
                  (Inl e, t) \<Rightarrow> PDict []
                | (Inr presets, t) \<Rightarrow>
                    (case py_len presets of Inl e \<Rightarrow> PDict [] | Inr n \<Rightarrow> presets))))"
    by blast
next
  from goto_preset_all_loop_outcomes [OF assms, of "cameras m" p tr "[]"]
  show "\<exists>out.
       goto_preset_all w m p tr =
         (Inr (),
          fold (\<lambda>(cam_id, ctrl) t. snd (goto_preset w ctrl p t)) (cameras m) tr, out) \<and>
       length out = length (cameras m) \<and>
       (\<forall>i < length (cameras m).
          out ! i =
            (case fst (goto_preset w (snd (cameras m ! i)) p
                    (fold (\<lambda>(cam_id, ctrl) t. snd (goto_preset w ctrl p t))
                       (take i (cameras m)) tr)) of
               Inl e \<Rightarrow> Failed (fst (cameras m ! i)) e
             | Inr v \<Rightarrow> Moved (fst (cameras m ! i)) p))"
    by (simp add: goto_preset_all_def)
qed

theorem batch_covers_registered_cameras_witness:
  "(\<forall>tr' ev. flaky_world tr' ev \<noteq> Raises KeyboardInterrupt) \<and>
   map fst (cameras (office_fleet ''pw1'' ''pw2'')) = [''entrance'', ''office''] \<and>
   get_all_presets flaky_world (office_fleet ''pw1'' ''pw2'') [] =
     (Inr [(''entrance'', PDict []), (''office'', PDict [(''1'', PStr ''door'')])],
      [Call ''10.0.0.1'' GetPresets, Call ''10.0.0.3'' GetPresets]) \<and>
   goto_preset_all flaky_world (office_fleet ''pw1'' ''pw2'') ''1'' [] =
     (Inr (),
      [Call ''10.0.0.1'' GetPrivacyMode, Call ''10.0.0.1'' (SetPreset ''1''),
       Call ''10.0.0.3'' GetPrivacyMode, Call ''10.0.0.3'' (SetPreset ''1'')],
      [Failed ''entrance'' (ClientError ''motor''), Moved ''office'' ''1''])"
proof -
  have quiet: "\<forall>tr' ev. flaky_world tr' ev \<noteq> Raises KeyboardInterrupt"
    by (simp add: flaky_world_def split: event.split call.split)
  have cams: "map fst (cameras (office_fleet ''pw1'' ''pw2'')) = [''entrance'', ''office'']"
    by (simp add: office_fleet_def)
  have presets: "get_all_presets flaky_world (office_fleet ''pw1'' ''pw2'') [] =
     (Inr [(''entrance'', PDict []), (''office'', PDict [(''1'', PStr ''door'')])],
      [Call ''10.0.0.1'' GetPresets, Call ''10.0.0.3'' GetPresets])"
    by (simp add: get_all_presets_def py_len_def office_fleet_def ctl_defs flaky_world_def)
  have recall: "goto_preset_all flaky_world (office_fleet ''pw1'' ''pw2'') ''1'' [] =
     (Inr (),
      [Call ''10.0.0.1'' GetPrivacyMode, Call ''10.0.0.1'' (SetPreset ''1''),
       Call ''10.0.0.3'' GetPrivacyMode, Call ''10.0.0.3'' (SetPreset ''1'')],
      [Failed ''entrance'' (ClientError ''motor''), Moved ''office'' ''1''])"
    by (simp add: goto_preset_all_def office_fleet_def ctl_defs flaky_world_def)
  from batch_covers_registered_cameras [OF quiet, of "office_fleet ''pw1'' ''pw2''" "[]" "''1''"]
    quiet cams presets recall
  show ?thesis
    by blast
qed

subsection \<open>Adding a camera\<close>

lemma get_motor_capability_fields:
  "get_motor_capability w c tr = (r, c', tr') \<Longrightarrow>
     host c' = host c \<and> user c' = user c \<and> password c' = password c \<and> tapo c' = tapo c"
  by (auto simp: get_motor_capability_def split: prod.splits sum.splits)

lemma connect_True:
  assumes "connect w c tr = (Inr True, c', tr')"
  shows "host c' = host c \<and> user c' = user c \<and> password c' = password c \<and>
         tapo c' = Some (Tapo (host c) (user c) (password c))"
  using assms
  by (auto simp: connect_def Let_def swallow_def
      split: prod.splits sum.splits if_splits dest!: get_motor_capability_fields)


text \<open>
  Claim C8, as stated: adding a camera under an identifier that is already registered
  fails with a duplicate-device error and leaves the registered session as it was. The
  registry has no such check: with \<open>entrance\<close> registered at \<open>10.0.0.1\<close>, adding \<open>entrance\<close>
  again at \<open>10.0.0.3\<close> returns \<open>True\<close> and the session for \<open>entrance\<close> is the new one.
\<close>

theorem duplicate_add_overwrites:
  "map_option host (get_camera (fst (snd one_add)) ''entrance'') = Some ''10.0.0.1'' \<and>
   fst duplicate_add = Inr True \<and>
   map_option host (get_camera (fst (snd duplicate_add)) ''entrance'') = Some ''10.0.0.3''"
  by (simp add: duplicate_add_def one_add_eval get_camera_def mgr_defs ctl_defs fleet_world_def)


text \<open>
  Claim C8, amended. \<open>add_camera\<close> returns what \<open>connect\<close> returns on the new session, for
  an identifier that is registered as for one that is not. If that is \<open>True\<close>, the
  identifier now maps to the new session, replacing any session it had; otherwise the
  registry is unchanged. The sessions of all other identifiers are untouched.
\<close>

theorem add_camera_replaces_session:
  "add_camera w m camera_id h u p tr = (r, m', tr') \<Longrightarrow>
     r = fst (connect w (init_controller h u p) tr) \<and>
     (r = Inr True \<longrightarrow>
        (\<exists>ctrl. get_camera m' camera_id = Some ctrl \<and> host ctrl = h \<and> user ctrl = u \<and>
           password ctrl = p \<and> tapo ctrl = Some (Tapo h u p)) \<and>
        fst ` set (cameras m') = insert camera_id (fst ` set (cameras m))) \<and>
     (r \<noteq> Inr True \<longrightarrow> m' = m) \<and>
     (\<forall>other. other \<noteq> camera_id \<longrightarrow> get_camera m' other = get_camera m other)"
proof -
  assume a: "add_camera w m camera_id h u p tr = (r, m', tr')"
  obtain r0 c0 tr0 where c: "connect w (init_controller h u p) tr = (r0, c0, tr0)"
    by (cases "connect w (init_controller h u p) tr")
  show ?thesis
  proof (cases r0)
    case (Inl e)
    with a c show ?thesis
      by (auto simp: add_camera_def)
  next
    case (Inr ok)
    show ?thesis
    proof (cases ok)
      case True
      from c Inr True have "connect w (init_controller h u p) tr = (Inr True, c0, tr0)"
        by simp
      from connect_True [OF this]
      have "host c0 = h \<and> user c0 = u \<and> password c0 = p \<and> tapo c0 = Some (Tapo h u p)"
        by (simp add: init_controller_def)
      then have fields: "host c0 = h" "user c0 = u" "password c0 = p"
        "tapo c0 = Some (Tapo h u p)"
        by simp_all
      from a c Inr True have r: "r = Inr True"
        and m': "m' = m\<lparr>cameras := AList.update camera_id c0 (cameras m)\<rparr>"
        by (auto simp: add_camera_def)
      have keys: "fst ` set (cameras m') = insert camera_id (fst ` set (cameras m))"
        by (simp add: m' AList.dom_update)
      have new: "get_camera m' camera_id = Some c0"
        by (simp add: m' get_camera_def AList.update_conv')
      have rest: "\<forall>other. other \<noteq> camera_id \<longrightarrow> get_camera m' other = get_camera m other"
        by (simp add: m' get_camera_def AList.update_conv')
      from r c Inr True fields keys new rest show ?thesis
        by simp
    next
      case False
      with a c Inr show ?thesis
        by (auto simp: add_camera_def)
    qed
  qed
qed

theorem add_camera_replaces_session_witness:
  "add_camera fleet_world (fst (snd one_add)) ''entrance'' ''10.0.0.3'' ''admin'' ''pw3''
       (snd (snd one_add)) = duplicate_add \<and>
   get_camera (fst (snd one_add)) ''entrance'' \<noteq> None \<and>
   fst duplicate_add = Inr True \<and>
   (\<exists>ctrl. get_camera (fst (snd duplicate_add)) ''entrance'' = Some ctrl \<and>
      host ctrl = ''10.0.0.3'' \<and> user ctrl = ''admin'' \<and> password ctrl = ''pw3'' \<and>
      tapo ctrl = Some (Tapo ''10.0.0.3'' ''admin'' ''pw3''))"
proof -
  have d: "add_camera fleet_world (fst (snd one_add)) ''entrance'' ''10.0.0.3'' ''admin'' ''pw3''
       (snd (snd one_add)) = (fst duplicate_add, fst (snd duplicate_add), snd (snd duplicate_add))"
    by (simp add: duplicate_add_def)
  have r: "fst duplicate_add = Inr True"
    by (simp add: duplicate_add_def one_add_eval mgr_defs ctl_defs fleet_world_def)
  have old: "get_camera (fst (snd one_add)) ''entrance'' \<noteq> None"
    by (simp add: one_add_eval get_camera_def)
  from add_camera_replaces_session [OF d] r old show ?thesis
    by (simp add: duplicate_add_def)
qed

subsection \<open>Persisted documents\<close>

lemmas example_runtime_defs = example_runtime_def example_load_def night_doc_def
  night_day_doc_def no_files_def encode_str_def escape_char_def newline_indent_def



lemma write_chunks_prefix:
  "\<exists>n. snd (write_chunks chunks written) = written @ concat (take n chunks)"
proof (induction chunks arbitrary: written)
  case Nil
  show ?case by simp
next
  case (Cons chunk chunks)
  show ?case
  proof (cases "has_surrogate chunk")
    case True
    then show ?thesis
      by (intro exI [of _ 0]) simp
  next
    case False
    from Cons.IH [of "written @ chunk"] obtain n where
      "snd (write_chunks chunks (written @ chunk)) = (written @ chunk) @ concat (take n chunks)"
      by blast
    with False show ?thesis
      by (intro exI [of _ "Suc n"]) simp
  qed
qed

lemma set_update_subset: "set (AList.update k v al) \<subseteq> insert (k, v) (set al)"
  by (induction al) auto

lemma config_fold_projection:
  "fold (\<lambda>(cam_id, ctrl) config.
       AList.update cam_id (PDict [(''host'', PStr (host ctrl)), (''user'', PStr (user ctrl))])
         config) xs acc =
   fold (\<lambda>(cam_id, h, u) config.
       AList.update cam_id (PDict [(''host'', PStr h), (''user'', PStr u)]) config)
     (map (\<lambda>(i, c). (i, host c, user c)) xs) acc"
  by (induction xs arbitrary: acc) auto

lemma config_fold_entries:
  "fst ` set (fold (\<lambda>(cam_id, ctrl) config.
       AList.update cam_id (PDict [(''host'', PStr (host ctrl)), (''user'', PStr (user ctrl))])
         config) xs acc) =
     fst ` set acc \<union> fst ` set xs \<and>
   set (fold (\<lambda>(cam_id, ctrl) config.
       AList.update cam_id (PDict [(''host'', PStr (host ctrl)), (''user'', PStr (user ctrl))])
         config) xs acc) \<subseteq>
     set acc \<union>
     (\<lambda>(i, c). (i, PDict [(''host'', PStr (host c)), (''user'', PStr (user c))])) ` set xs"
proof (induction xs arbitrary: acc)
  case Nil
  show ?case by simp
next
  case (Cons x xs)
  obtain i c where x: "x = (i, c)"
    by (cases x)
  let ?entry = "PDict [(''host'', PStr (host c)), (''user'', PStr (user c))]"
  from Cons.IH [of "AList.update i ?entry acc"] set_update_subset [of i ?entry acc]
  show ?case
    unfolding x by (auto simp: AList.dom_update)
qed

lemma dump_to_disk:
  "\<forall>name'. snd (dump_to rt obj fs name) name' = fs name' \<or>
     name' = name \<and>
     (\<exists>n. snd (dump_to rt obj fs name) name' = Some (concat (take n (json_chunks rt obj))))"
proof (cases "name = [] \<or> open_fails rt ''w'' name \<noteq> None")
  case True
  then show ?thesis
    by (auto simp: dump_to_def)
next
  case False
  from write_chunks_prefix [of "json_chunks rt obj" "[]"] obtain n where
    "snd (write_chunks (json_chunks rt obj) []) = concat (take n (json_chunks rt obj))"
    by auto
  with False show ?thesis
    by (auto simp: dump_to_def split: prod.splits)
qed



text \<open>
  Claim C10. Two registries that agree on the identifiers, hosts and users (and on the
  file name) give \<open>save_config\<close> the same outcome and leave the same disk, whatever their
  passwords. What \<open>save_config\<close> dumps is a dict with one entry per registered camera,
  made of the \<open>host\<close> and \<open>user\<close> fields and nothing else; the only file it can change is
  the one it is asked to write, which then holds chunks of the JSON text of that dict,
  from the first on: all of them unless the dump raises.
\<close>

theorem save_config_omits_passwords:
  "(map (\<lambda>(i, c). (i, host c, user c)) (cameras m1) =
      map (\<lambda>(i, c). (i, host c, user c)) (cameras m2) \<and> config_file m1 = config_file m2 \<longrightarrow>
      save_config rt m1 fs filename = save_config rt m2 fs filename) \<and>
   (\<exists>config.
      fst ` set config = fst ` set (cameras m1) \<and>
      (\<forall>(i, entry) \<in> set config.
         \<exists>c. (i, c) \<in> set (cameras m1) \<and>
             entry = PDict [(''host'', PStr (host c)), (''user'', PStr (user c))]) \<and>
      save_config rt m1 fs filename =
        dump_to rt (PDict config) fs
          (case filename of None \<Rightarrow> config_file m1 | Some f \<Rightarrow> f) \<and>
      (\<forall>name. snd (save_config rt m1 fs filename) name = fs name \<or>
         name = (case filename of None \<Rightarrow> config_file m1 | Some f \<Rightarrow> f) \<and>
         (\<exists>n. snd (save_config rt m1 fs filename) name =
                Some (concat (take n (json_chunks rt (PDict config)))))))"
proof (intro conjI impI)
  assume "map (\<lambda>(i, c). (i, host c, user c)) (cameras m1) =
      map (\<lambda>(i, c). (i, host c, user c)) (cameras m2) \<and> config_file m1 = config_file m2"
  then show "save_config rt m1 fs filename = save_config rt m2 fs filename"
    by (cases filename) (simp_all add: save_config_def config_fold_projection)
next
  let ?config = "fold (\<lambda>(cam_id, ctrl) config.
       AList.update cam_id (PDict [(''host'', PStr (host ctrl)), (''user'', PStr (user ctrl))])
         config) (cameras m1) []"
  let ?fname = "case filename of None \<Rightarrow> config_file m1 | Some f \<Rightarrow> f"
  have run: "save_config rt m1 fs filename = dump_to rt (PDict ?config) fs ?fname"
    by (simp add: save_config_def Let_def)
  have keys: "fst ` set ?config = fst ` set (cameras m1)"
    using config_fold_entries [of "cameras m1" "[]"] by simp
  have entries: "\<forall>(i, entry) \<in> set ?config.
         \<exists>c. (i, c) \<in> set (cameras m1) \<and>
             entry = PDict [(''host'', PStr (host c)), (''user'', PStr (user c))]"
    using config_fold_entries [of "cameras m1" "[]"] by auto
  have disk: "\<forall>name. snd (save_config rt m1 fs filename) name = fs name \<or>
         name = ?fname \<and>
         (\<exists>n. snd (save_config rt m1 fs filename) name =
                Some (concat (take n (json_chunks rt (PDict ?config)))))"
    unfolding run by (rule dump_to_disk)
  from keys entries run disk
  show "\<exists>config.
      fst ` set config = fst ` set (cameras m1) \<and>
      (\<forall>(i, entry) \<in> set config.
         \<exists>c. (i, c) \<in> set (cameras m1) \<and>
             entry = PDict [(''host'', PStr (host c)), (''user'', PStr (user c))]) \<and>
      save_config rt m1 fs filename =
        dump_to rt (PDict config) fs
          (case filename of None \<Rightarrow> config_file m1 | Some f \<Rightarrow> f) \<and>
      (\<forall>name. snd (save_config rt m1 fs filename) name = fs name \<or>
         name = (case filename of None \<Rightarrow> config_file m1 | Some f \<Rightarrow> f) \<and>
         (\<exists>n. snd (save_config rt m1 fs filename) name =
                Some (concat (take n (json_chunks rt (PDict config))))))"
    by (intro exI [of _ ?config] conjI)
qed

theorem save_config_omits_passwords_witness:
  "map (\<lambda>(i, c). (i, host c, user c)) (cameras (office_fleet ''pw1'' ''pw2'')) =
     map (\<lambda>(i, c). (i, host c, user c)) (cameras (office_fleet ''hunter2'' ''swordfish'')) \<and>
   office_fleet ''pw1'' ''pw2'' \<noteq> office_fleet ''hunter2'' ''swordfish'' \<and>
   save_config example_runtime (office_fleet ''pw1'' ''pw2'') no_files None =
     save_config example_runtime (office_fleet ''hunter2'' ''swordfish'') no_files None \<and>
   fst (save_config example_runtime (office_fleet ''pw1'' ''pw2'') no_files None) = Inr () \<and>
   snd (save_config example_runtime (office_fleet ''pw1'' ''pw2'') no_files None)
       ''cameras_config.json'' =
     Some (concat (iterencode 0
       (PDict [(''entrance'', PDict [(''host'', PStr ''10.0.0.1''), (''user'', PStr ''admin'')]),
               (''office'', PDict [(''host'', PStr ''10.0.0.3''), (''user'', PStr ''admin'')])]))) \<and>
   save_config example_runtime (office_fleet ''pw1'' ''pw2'') no_files (Some []) =
     (Inl FileNotFoundError, no_files)"
proof -
  have same: "map (\<lambda>(i, c). (i, host c, user c)) (cameras (office_fleet ''pw1'' ''pw2'')) =
     map (\<lambda>(i, c). (i, host c, user c)) (cameras (office_fleet ''hunter2'' ''swordfish'')) \<and>
     config_file (office_fleet ''pw1'' ''pw2'') =
     config_file (office_fleet ''hunter2'' ''swordfish'')"
    by (simp add: office_fleet_def)
  have differ: "office_fleet ''pw1'' ''pw2'' \<noteq> office_fleet ''hunter2'' ''swordfish''"
    by (simp add: office_fleet_def)
  have written: "fst (save_config example_runtime (office_fleet ''pw1'' ''pw2'') no_files None) =
      Inr () \<and>
    snd (save_config example_runtime (office_fleet ''pw1'' ''pw2'') no_files None)
       ''cameras_config.json'' =
     Some (concat (iterencode 0
       (PDict [(''entrance'', PDict [(''host'', PStr ''10.0.0.1''), (''user'', PStr ''admin'')]),
               (''office'', PDict [(''host'', PStr ''10.0.0.3''), (''user'', PStr ''admin'')])])))"
    by (simp add: save_config_def dump_to_def office_fleet_def example_runtime_defs)
  have refused: "save_config example_runtime (office_fleet ''pw1'' ''pw2'') no_files (Some []) =
     (Inl FileNotFoundError, no_files)"
    by (simp add: save_config_def dump_to_def)
  from save_config_omits_passwords [of "office_fleet ''pw1'' ''pw2''"
      "office_fleet ''hunter2'' ''swordfish''" example_runtime no_files None]
    same differ written refused
  show ?thesis
    by blast
qed








subsection \<open>Applying a scene\<close>

lemma apply_scene_loop_lines:
  assumes "\<forall>tr' ev. w tr' ev \<noteq> Raises KeyboardInterrupt"
  shows "\<exists>evs new. apply_scene_loop w m items tr out = (Inr (), tr @ evs, out @ new) \<and>
     list_all2 (\<lambda>(cam_id, preset_id) l.
        case get_camera m cam_id of
          None \<Rightarrow> l = NotConnected cam_id
        | Some ctrl \<Rightarrow>
            (l = Moved cam_id preset_id \<or> (\<exists>e. l = Failed cam_id e)) \<and>
            (\<forall>t. tapo ctrl = Some t \<longrightarrow>
               Call (tapo_host t) (SetPreset preset_id) \<in> set evs)) items new"
proof (induction items arbitrary: tr out)
  case Nil
  show ?case by simp
next
  case (Cons item items)
  let ?P = "\<lambda>evs. \<lambda>(cam_id, preset_id) l.
        case get_camera m cam_id of
          None \<Rightarrow> l = NotConnected cam_id
        | Some ctrl \<Rightarrow>
            (l = Moved cam_id preset_id \<or> (\<exists>e. l = Failed cam_id e)) \<and>
            (\<forall>t. tapo ctrl = Some t \<longrightarrow>
               Call (tapo_host t) (SetPreset preset_id) \<in> set evs)"
  have mono: "?P evs2 x l \<Longrightarrow> ?P (evs1 @ evs2) x l" for evs1 evs2 x l
    by (auto split: option.splits)
  obtain cam_id preset_id where item: "item = (cam_id, preset_id)"
    by (cases item)
  show ?case
  proof (cases "map_of (cameras m) cam_id")
    case None
    from Cons.IH [of tr "out @ [NotConnected cam_id]"]
    obtain evs new where
      run: "apply_scene_loop w m items tr (out @ [NotConnected cam_id]) =
         (Inr (), tr @ evs, (out @ [NotConnected cam_id]) @ new)"
      and rest: "list_all2 (?P evs) items new"
      by blast
    have "?P evs (cam_id, preset_id) (NotConnected cam_id)"
      using None by (simp add: get_camera_def)
    with run rest item None show ?thesis
      by (intro exI [of _ evs] exI [of _ "NotConnected cam_id # new"]) simp
  next
    case (Some ctrl)
    from goto_preset_quiet [OF assms, of ctrl preset_id tr]
    obtain r evs1 where g: "goto_preset w ctrl preset_id tr = (r, tr @ evs1)"
      and ex: "\<forall>e. r = Inl e \<longrightarrow> is_Exception e"
      and sent: "\<forall>t. tapo ctrl = Some t \<longrightarrow> Call (tapo_host t) (SetPreset preset_id) \<in> set evs1"
      by blast
    define l where "l = (case r of Inl e \<Rightarrow> Failed cam_id e | Inr v \<Rightarrow> Moved cam_id preset_id)"
    from Cons.IH [of "tr @ evs1" "out @ [l]"]
    obtain evs2 new where
      run: "apply_scene_loop w m items (tr @ evs1) (out @ [l]) =
         (Inr (), (tr @ evs1) @ evs2, (out @ [l]) @ new)"
      and rest: "list_all2 (?P evs2) items new"
      by blast
    have step: "apply_scene_loop w m (item # items) tr out =
        apply_scene_loop w m items (tr @ evs1) (out @ [l])"
      using item Some g ex by (cases r) (simp_all add: l_def)
    have here: "?P (evs1 @ evs2) (cam_id, preset_id) l"
      using Some sent by (cases r) (auto simp: l_def get_camera_def)
    have "list_all2 (?P (evs1 @ evs2)) items new"
      using rest by (rule list_all2_mono) (rule mono)
    with step run here item show ?thesis
      by (intro exI [of _ "evs1 @ evs2"] exI [of _ "l # new"]) simp
  qed
qed


text \<open>
  Claim C4. Applying a stored scene, unless an interrupt arrives, never raises: it returns
  normally with one printed line per pair of the scene, in order. A pair whose camera is
  not in the registry gets the line \<open>NotConnected\<close>; a pair whose camera is registered
  gets \<open>Moved\<close> or \<open>Failed\<close>, and if its session is connected the preset recall with the
  mapped identifier was sent to its host, whatever happened to the pairs before it.
\<close>

theorem apply_scene_per_device:
  assumes "fs ''scenes.json'' = Holds scenes"
    and "map_of scenes scene_name = Some camera_presets"
    and "\<forall>tr' ev. w tr' ev \<noteq> Raises KeyboardInterrupt"
  shows "\<exists>evs out. apply_scene w m fs scene_name tr = (Inr (), tr @ evs, out) \<and>
     list_all2 (\<lambda>(cam_id, preset_id) l.
        case get_camera m cam_id of
          None \<Rightarrow> l = NotConnected cam_id
        | Some ctrl \<Rightarrow>
            (l = Moved cam_id preset_id \<or> (\<exists>e. l = Failed cam_id e)) \<and>
            (\<forall>t. tapo ctrl = Some t \<longrightarrow>
               Call (tapo_host t) (SetPreset preset_id) \<in> set evs)) camera_presets out"
  using apply_scene_loop_lines [OF assms(3), of m camera_presets tr "[]"] assms(1,2)
  by (simp add: apply_scene_def)

theorem apply_scene_per_device_witness:
  "day_scene_files ''scenes.json'' =
     Holds [(''night'', [(''entrance'', ''2''), (''office'', ''2'')]),
            (''day'', [(''entrance'', ''1''), (''warehouse'', ''2''), (''office'', ''3'')])] \<and>
   map fst (cameras (office_fleet ''pw1'' ''pw2'')) = [''entrance'', ''office''] \<and>
   (\<forall>tr' ev. fleet_world tr' ev \<noteq> Raises KeyboardInterrupt) \<and>
   apply_scene fleet_world (office_fleet ''pw1'' ''pw2'') day_scene_files ''day'' [] =
     (Inr (),
      [Call ''10.0.0.1'' GetPrivacyMode, Call ''10.0.0.1'' (SetPreset ''1''),
       Call ''10.0.0.3'' GetPrivacyMode, Call ''10.0.0.3'' (SetPreset ''3'')],
      [Failed ''entrance'' (ClientError ''motor''), NotConnected ''warehouse'',
       Moved ''office'' ''3''])"
proof -
  have doc: "day_scene_files ''scenes.json'' =
     Holds [(''night'', [(''entrance'', ''2''), (''office'', ''2'')]),
            (''day'', [(''entrance'', ''1''), (''warehouse'', ''2''), (''office'', ''3'')])]"
    by (simp add: day_scene_files_def)
  have scene: "map_of [(''night'', [(''entrance'', ''2''), (''office'', ''2'')]),
            (''day'', [(''entrance'', ''1''), (''warehouse'', ''2''), (''office'', ''3'')])] ''day'' =
     Some [(''entrance'', ''1''), (''warehouse'', ''2''), (''office'', ''3'')]"
    by simp
  have cams: "map fst (cameras (office_fleet ''pw1'' ''pw2'')) = [''entrance'', ''office'']"
    by (simp add: office_fleet_def)
  have run: "apply_scene fleet_world (office_fleet ''pw1'' ''pw2'') day_scene_files ''day'' [] =
     (Inr (),
      [Call ''10.0.0.1'' GetPrivacyMode, Call ''10.0.0.1'' (SetPreset ''1''),
       Call ''10.0.0.3'' GetPrivacyMode, Call ''10.0.0.3'' (SetPreset ''3'')],
      [Failed ''entrance'' (ClientError ''motor''), NotConnected ''warehouse'',
       Moved ''office'' ''3''])"
    by (simp add: apply_scene_def doc office_fleet_def ctl_defs fleet_world_def)
  from apply_scene_per_device [where fs = day_scene_files and scene_name = "''day''"
      and scenes = "[(''night'', [(''entrance'', ''2''), (''office'', ''2'')]),
            (''day'', [(''entrance'', ''1''), (''warehouse'', ''2''), (''office'', ''3'')])]"
      and camera_presets = "[(''entrance'', ''1''), (''warehouse'', ''2''), (''office'', ''3'')]"
      and w = fleet_world and m = "office_fleet ''pw1'' ''pw2''" and tr = "[]",
      OF doc scene fleet_world_quiet]
    doc cams fleet_world_quiet run
  show ?thesis
    by simp
qed

section \<open>The patrol loop\<close>

text \<open>
  The \<^verbatim>\<open>while True\<close> loop run for a number of passes visits the presets of that many
  copies of the list, one after the other, and stops at the first exception.
\<close>

lemma patrol_for_append:
  "patrol_for w c d (xs @ ys) tr =
     (case patrol_for w c d xs tr of
        (Inl e, tr1) \<Rightarrow> (Inl e, tr1)
      | (Inr u, tr1) \<Rightarrow> patrol_for w c d ys tr1)"
  by (induction xs arbitrary: tr) (auto split: prod.splits sum.splits)

lemma patrol_while_flat:
  "patrol_while n w c d ps tr =
     (case patrol_for w c d (concat (replicate n ps)) tr of
        (Inl e, tr1) \<Rightarrow> (Some (Inl e), tr1)
      | (Inr u, tr1) \<Rightarrow> (None, tr1))"
  by (induction n arbitrary: tr) (auto simp: patrol_for_append split: prod.splits sum.splits)

lemma patrol_for_visits:
  assumes conn: "tapo c = Some t"
    and dwell: "0 \<le> d"
    and quiet: "\<forall>tr' ev. w tr' ev \<noteq> Raises KeyboardInterrupt"
    and recall: "\<forall>tr' p. \<exists>v. w tr' (Call (tapo_host t) (SetPreset p)) = Returns v"
    and wait: "\<forall>tr'. \<exists>v. w tr' (Sleep d) = Returns v"
  shows "\<exists>gs. patrol_for w c d ps tr =
           (Inr (), tr @ concat (map (\<lambda>(g, p). g @ [Call (tapo_host t) (SetPreset p), Sleep d])
                                  (zip gs ps))) \<and>
         length gs = length ps \<and>
         (\<forall>g \<in> set gs. set g \<subseteq> {Call (tapo_host t) GetPrivacyMode,
                                  Call (tapo_host t) (SetPrivacyMode False), Sleep 1})"
proof (induction ps arbitrary: tr)
  case Nil
  show ?case by simp
next
  case (Cons p ps)
  from guard_connected [OF conn, of w tr]
  obtain r g0 where g: "ensure_privacy_mode_off w c tr =
        (r, tr @ Call (tapo_host t) GetPrivacyMode # g0)"
    and sub: "set g0 \<subseteq> {Call (tapo_host t) (SetPrivacyMode False), Sleep 1}"
    by blast
  from guard_uninterrupted [OF quiet, of c tr] g obtain b where r: "r = Inr b"
    by auto
  define g where "g = Call (tapo_host t) GetPrivacyMode # g0"
  have gsub: "set g \<subseteq> {Call (tapo_host t) GetPrivacyMode,
      Call (tapo_host t) (SetPrivacyMode False), Sleep 1}"
    using sub by (auto simp: g_def)
  from recall obtain v where v: "w (tr @ g) (Call (tapo_host t) (SetPreset p)) = Returns v"
    by blast
  have goto: "goto_preset w c p tr = (Inr v, tr @ g @ [Call (tapo_host t) (SetPreset p)])"
    using guarded_commands(2) [OF conn g [unfolded r], of p] v
    by (simp add: perform_def g_def)
  from wait obtain v' where
    "w (tr @ g @ [Call (tapo_host t) (SetPreset p)]) (Sleep d) = Returns v'"
    by blast
  with dwell have nap: "sleep w d (tr @ g @ [Call (tapo_host t) (SetPreset p)]) =
      (Inr v', tr @ g @ [Call (tapo_host t) (SetPreset p), Sleep d])"
    by (simp add: sleep_def perform_def)
  from Cons.IH [of "tr @ g @ [Call (tapo_host t) (SetPreset p), Sleep d]"]
  obtain gs where rest: "patrol_for w c d ps (tr @ g @ [Call (tapo_host t) (SetPreset p), Sleep d]) =
           (Inr (), (tr @ g @ [Call (tapo_host t) (SetPreset p), Sleep d]) @
              concat (map (\<lambda>(g, p). g @ [Call (tapo_host t) (SetPreset p), Sleep d]) (zip gs ps)))"
    and len: "length gs = length ps"
    and subs: "\<forall>g \<in> set gs. set g \<subseteq> {Call (tapo_host t) GetPrivacyMode,
                                  Call (tapo_host t) (SetPrivacyMode False), Sleep 1}"
    by blast
  from goto nap rest len subs gsub show ?case
    by (intro exI [of _ "g # gs"]) simp
qed


text \<open>
  Claim C9. On a connected session, with a dwell time that is not negative: if no
  interrupt arrives and neither a preset recall nor the dwell wait raises, then after any
  number of passes the patrol is still running, and what it has done is, for each preset
  of the list in order, pass after pass, the events of the privacy check, the recall of
  that preset and the dwell wait. If the patrol has reached a preset whose recall raises
  an \<open>Exception\<close>, the patrol ends with that exception, and the failed recall is the last
  event of the trace: it is not tried again and no other preset is recalled.
\<close>

theorem patrol_cycles_until_error:
  assumes "tapo c = Some t"
  shows
   "(0 \<le> d \<and> (\<forall>tr' ev. w tr' ev \<noteq> Raises KeyboardInterrupt) \<and>
     (\<forall>tr' p. \<exists>v. w tr' (Call (tapo_host t) (SetPreset p)) = Returns v) \<and>
     (\<forall>tr'. \<exists>v. w tr' (Sleep d) = Returns v) \<longrightarrow>
     (\<exists>gs. start_patrol passes w c ps d tr =
        (None, tr @ concat (map (\<lambda>(g, p). g @ [Call (tapo_host t) (SetPreset p), Sleep d])
                              (zip gs (concat (replicate passes ps))))) \<and>
        length gs = passes * length ps \<and>
        (\<forall>g \<in> set gs. set g \<subseteq> {Call (tapo_host t) GetPrivacyMode,
                                 Call (tapo_host t) (SetPrivacyMode False), Sleep 1}))) \<and>
    (concat (replicate passes ps) = pre @ p # post \<and>
     patrol_for w c d pre tr = (Inr (), tr1) \<and>
     ensure_privacy_mode_off w c tr1 = (Inr b, tr2) \<and>
     w tr2 (Call (tapo_host t) (SetPreset p)) = Raises e \<and> is_Exception e \<longrightarrow>
     start_patrol passes w c ps d tr =
       (Some (Inl e), tr2 @ [Call (tapo_host t) (SetPreset p)]))"
proof (intro conjI impI)
  assume h: "0 \<le> d \<and> (\<forall>tr' ev. w tr' ev \<noteq> Raises KeyboardInterrupt) \<and>
     (\<forall>tr' p. \<exists>v. w tr' (Call (tapo_host t) (SetPreset p)) = Returns v) \<and>
     (\<forall>tr'. \<exists>v. w tr' (Sleep d) = Returns v)"
  then have "\<exists>gs. patrol_for w c d (concat (replicate passes ps)) tr =
           (Inr (), tr @ concat (map (\<lambda>(g, p). g @ [Call (tapo_host t) (SetPreset p), Sleep d])
                                  (zip gs (concat (replicate passes ps))))) \<and>
         length gs = length (concat (replicate passes ps)) \<and>
         (\<forall>g \<in> set gs. set g \<subseteq> {Call (tapo_host t) GetPrivacyMode,
                                  Call (tapo_host t) (SetPrivacyMode False), Sleep 1})"
    using assms by (intro patrol_for_visits) simp_all
  moreover have "length (concat (replicate passes ps)) = passes * length ps"
    by (induction passes) simp_all
  ultimately show "\<exists>gs. start_patrol passes w c ps d tr =
        (None, tr @ concat (map (\<lambda>(g, p). g @ [Call (tapo_host t) (SetPreset p), Sleep d])
                              (zip gs (concat (replicate passes ps))))) \<and>
        length gs = passes * length ps \<and>
        (\<forall>g \<in> set gs. set g \<subseteq> {Call (tapo_host t) GetPrivacyMode,
                                 Call (tapo_host t) (SetPrivacyMode False), Sleep 1})"
    by (auto simp: start_patrol_def patrol_while_flat)
next
  assume h: "concat (replicate passes ps) = pre @ p # post \<and>
     patrol_for w c d pre tr = (Inr (), tr1) \<and>
     ensure_privacy_mode_off w c tr1 = (Inr b, tr2) \<and>
     w tr2 (Call (tapo_host t) (SetPreset p)) = Raises e \<and> is_Exception e"
  then have guard: "ensure_privacy_mode_off w c tr1 = (Inr b, tr2)"
    by simp
  have "goto_preset w c p tr1 = (Inl e, tr2 @ [Call (tapo_host t) (SetPreset p)])"
    using guarded_commands(2) [OF assms guard, of p] h by (simp add: perform_def)
  then have "patrol_for w c d (p # post) tr1 = (Inl e, tr2 @ [Call (tapo_host t) (SetPreset p)])"
    by simp
  with h have "patrol_for w c d (concat (replicate passes ps)) tr =
      (Inl e, tr2 @ [Call (tapo_host t) (SetPreset p)])"
    by (simp add: patrol_for_append)
  with h show "start_patrol passes w c ps d tr =
       (Some (Inl e), tr2 @ [Call (tapo_host t) (SetPreset p)])"
    by (simp add: start_patrol_def patrol_while_flat is_Exception_def)
qed

theorem patrol_cycles_until_error_witness:
  "tapo cam = Some (Tapo ''192.168.1.100'' ''admin'' ''secret'') \<and>
   (\<forall>tr' ev. camera_world True tr' ev \<noteq> Raises KeyboardInterrupt) \<and>
   start_patrol 2 (camera_world True) cam [''1'', ''2'', ''3''] 10 [] =
     (None,
      [Call ''192.168.1.100'' GetPrivacyMode, Call ''192.168.1.100'' (SetPrivacyMode False),
       Sleep 1, Call ''192.168.1.100'' (SetPreset ''1''), Sleep 10,
       Call ''192.168.1.100'' GetPrivacyMode, Call ''192.168.1.100'' (SetPreset ''2''), Sleep 10,
       Call ''192.168.1.100'' GetPrivacyMode, Call ''192.168.1.100'' (SetPreset ''3''), Sleep 10,
       Call ''192.168.1.100'' GetPrivacyMode, Call ''192.168.1.100'' (SetPreset ''1''), Sleep 10,
       Call ''192.168.1.100'' GetPrivacyMode, Call ''192.168.1.100'' (SetPreset ''2''), Sleep 10,
       Call ''192.168.1.100'' GetPrivacyMode, Call ''192.168.1.100'' (SetPreset ''3''),
       Sleep 10]) \<and>
   start_patrol 2 jam_world cam [''1'', ''2'', ''3''] 10 [] =
     (Some (Inl (ClientError ''jammed'')),
      [Call ''192.168.1.100'' GetPrivacyMode, Call ''192.168.1.100'' (SetPreset ''1''), Sleep 10,
       Call ''192.168.1.100'' GetPrivacyMode, Call ''192.168.1.100'' (SetPreset ''2'')])"
proof -
  have conn: "tapo cam = Some (Tapo ''192.168.1.100'' ''admin'' ''secret'')"
    by (simp add: cam_def)
  have quiet: "\<forall>tr' ev. camera_world True tr' ev \<noteq> Raises KeyboardInterrupt"
    by (simp add: camera_world_def split: event.split call.split)
  have recall: "\<forall>tr' p. \<exists>v. camera_world True tr'
      (Call (tapo_host (Tapo ''192.168.1.100'' ''admin'' ''secret'')) (SetPreset p)) = Returns v"
    by (simp add: camera_world_def)
  have wait: "\<forall>tr'. \<exists>v. camera_world True tr' (Sleep 10) = Returns v"
    by (simp add: camera_world_def)
  have cycle: "start_patrol 2 (camera_world True) cam [''1'', ''2'', ''3''] 10 [] =
     (None,
      [Call ''192.168.1.100'' GetPrivacyMode, Call ''192.168.1.100'' (SetPrivacyMode False),
       Sleep 1, Call ''192.168.1.100'' (SetPreset ''1''), Sleep 10,
       Call ''192.168.1.100'' GetPrivacyMode, Call ''192.168.1.100'' (SetPreset ''2''), Sleep 10,
       Call ''192.168.1.100'' GetPrivacyMode, Call ''192.168.1.100'' (SetPreset ''3''), Sleep 10,
       Call ''192.168.1.100'' GetPrivacyMode, Call ''192.168.1.100'' (SetPreset ''1''), Sleep 10,
       Call ''192.168.1.100'' GetPrivacyMode, Call ''192.168.1.100'' (SetPreset ''2''), Sleep 10,
       Call ''192.168.1.100'' GetPrivacyMode, Call ''192.168.1.100'' (SetPreset ''3''),
       Sleep 10])"
    by (simp add: start_patrol_def numeral_2_eq_2 ctl_defs camera_world_def cam_def)
  have seq: "concat (replicate 2 [''1'', ''2'', ''3'']) =
      [''1''] @ ''2'' # [''3'', ''1'', ''2'', ''3'']"
    by (simp add: numeral_2_eq_2)
  have first: "patrol_for jam_world cam 10 [''1''] [] =
      (Inr (), [Call ''192.168.1.100'' GetPrivacyMode, Call ''192.168.1.100'' (SetPreset ''1''),
                Sleep 10])"
    by (simp add: ctl_defs jam_world_def cam_def)
  have guard: "ensure_privacy_mode_off jam_world cam
      [Call ''192.168.1.100'' GetPrivacyMode, Call ''192.168.1.100'' (SetPreset ''1''), Sleep 10] =
      (Inr True,
       [Call ''192.168.1.100'' GetPrivacyMode, Call ''192.168.1.100'' (SetPreset ''1''), Sleep 10,
        Call ''192.168.1.100'' GetPrivacyMode])"
    by (simp add: ctl_defs jam_world_def cam_def)
  have jam: "jam_world
      [Call ''192.168.1.100'' GetPrivacyMode, Call ''192.168.1.100'' (SetPreset ''1''), Sleep 10,
       Call ''192.168.1.100'' GetPrivacyMode]
      (Call (tapo_host (Tapo ''192.168.1.100'' ''admin'' ''secret'')) (SetPreset ''2'')) =
      Raises (ClientError ''jammed'')"
    by (simp add: jam_world_def)
  have ex: "is_Exception (ClientError ''jammed'')"
    by (simp add: is_Exception_def)
  from patrol_cycles_until_error [where c = cam and w = jam_world and passes = 2
      and t = "Tapo ''192.168.1.100'' ''admin'' ''secret''"
      and ps = "[''1'', ''2'', ''3'']" and d = 10 and tr = "[]" and pre = "[''1'']"
      and p = "''2''" and post = "[''3'', ''1'', ''2'', ''3'']"
      and ?tr1.0 = "[Call ''192.168.1.100'' GetPrivacyMode,
        Call ''192.168.1.100'' (SetPreset ''1''), Sleep 10]"
      and ?tr2.0 = "[Call ''192.168.1.100'' GetPrivacyMode,
        Call ''192.168.1.100'' (SetPreset ''1''), Sleep 10, Call ''192.168.1.100'' GetPrivacyMode]"
      and b = True and e = "ClientError ''jammed''", OF conn]
    seq first guard jam ex
  have stop: "start_patrol 2 jam_world cam [''1'', ''2'', ''3''] 10 [] =
     (Some (Inl (ClientError ''jammed'')),
      [Call ''192.168.1.100'' GetPrivacyMode, Call ''192.168.1.100'' (SetPreset ''1''), Sleep 10,
       Call ''192.168.1.100'' GetPrivacyMode, Call ''192.168.1.100'' (SetPreset ''2'')])"
    by simp
  have calm: "0 \<le> (10::int) \<and>
      (\<forall>tr' ev. camera_world True tr' ev \<noteq> Raises KeyboardInterrupt) \<and>
      (\<forall>tr' p. \<exists>v. camera_world True tr'
         (Call (tapo_host (Tapo ''192.168.1.100'' ''admin'' ''secret'')) (SetPreset p)) =
         Returns v) \<and>
      (\<forall>tr'. \<exists>v. camera_world True tr' (Sleep 10) = Returns v)"
    using quiet recall wait by simp
  from patrol_cycles_until_error [where c = cam and w = "camera_world True" and passes = 2
      and t = "Tapo ''192.168.1.100'' ''admin'' ''secret''"
      and ps = "[''1'', ''2'', ''3'']" and d = 10 and tr = "[]", OF conn,
      THEN conjunct1, THEN mp, OF calm]
  have "\<exists>gs. start_patrol 2 (camera_world True) cam [''1'', ''2'', ''3''] 10 [] =
      (None, [] @ concat (map (\<lambda>(g, p). g @
         [Call (tapo_host (Tapo ''192.168.1.100'' ''admin'' ''secret'')) (SetPreset p), Sleep 10])
         (zip gs (concat (replicate 2 [''1'', ''2'', ''3''])))))"
    by blast
  with conn quiet cycle stop show ?thesis
    by simp
qed

end
